theory Spec2Isabelle
  imports Complex_Main
begin

section \<open>Grid and movement model\<close>

text \<open>
  The direction constants \<open>UP\<close>, \<open>DOWN\<close>, \<open>LEFT\<close>, \<open>RIGHT\<close> and \<open>NONE\<close> are five distinct
  values of the game engine. A position is an object \<open>{x, y}\<close>: pixel positions carry
  arbitrary numbers (taken here as real numbers), grid cells carry the integers that
  \<open>Math.round\<close> produces. A cell key \<open>x + ',' + y\<close> identifies a cell, so cells themselves
  serve as keys.
\<close>

datatype direction = UP | DOWN | LEFT | RIGHT | NONE

datatype pos = Pos (px: real) (py: real)

datatype cell = Cell (cx: int) (cy: int)

datatype error = TypeError

text \<open>\<open>Math.round\<close> rounds to the nearest integer, halves upwards.\<close>

definition Math_round :: "real \<Rightarrow> int" where
  "Math_round q = \<lfloor>q + 1 / 2\<rfloor>"

definition toGrid :: "pos \<Rightarrow> cell" where
  "toGrid p = Cell (Math_round (px p / 10)) (Math_round (py p / 10))"

definition manhattanDistance :: "cell \<Rightarrow> cell \<Rightarrow> int" where
  "manhattanDistance pos1 pos2 = \<bar>cx pos1 - cx pos2\<bar> + \<bar>cy pos1 - cy pos2\<bar>"

definition directions :: "direction list" where
  "directions = [UP, DOWN, LEFT, RIGHT]"

section \<open>Ghost model (Bayesian learning)\<close>

text \<open>
  \<open>ghostObservations[ghostIdx][situation][move]\<close> is a count; \<open>totalObservations\<close> counts
  all recorded moves and \<open>stats.ghostModelConfidence\<close> is derived from it. Writing the
  model to local storage is left to the browser and is not part of the state here.
\<close>

type_synonym bucket = "direction \<rightharpoonup> nat"

record ghost_model =
  ghostObservations :: "nat \<rightharpoonup> (string \<rightharpoonup> bucket)"
  totalObservations :: nat
  ghostModelConfidence :: int

definition getSituation :: "pos \<Rightarrow> pos \<Rightarrow> string" where
  "getSituation ghostPos pacmanPos =
     (let gx = Math_round (px ghostPos / 10);
          gy = Math_round (py ghostPos / 10);
          px' = Math_round (px pacmanPos / 10);
          py' = Math_round (py pacmanPos / 10);
          dx = px' - gx;
          dy = py' - gy;
          horizontal = (if dx > 2 then ''R'' else if dx < - 2 then ''L'' else ''H'');
          vertical = (if dy > 2 then ''D'' else if dy < - 2 then ''U'' else ''V'');
          dist = \<bar>dx\<bar> + \<bar>dy\<bar>;
          distCat = (if dist < 5 then ''near'' else if dist < 10 then ''mid'' else ''far'')
      in horizontal @ vertical @ ''_'' @ distCat)"

text \<open>
  The state at the start, when no saved model is found: an empty table for each of the
  four ghosts, no observation, and the confidence that \<open>stats\<close> starts with.
\<close>

definition initialGhostModel :: ghost_model where
  "initialGhostModel =
     \<lparr>ghostObservations = [0 \<mapsto> Map.empty, 1 \<mapsto> Map.empty, 2 \<mapsto> Map.empty, 3 \<mapsto> Map.empty],
      totalObservations = 0,
      ghostModelConfidence = 0\<rparr>"

text \<open>
  \<open>resetGhostModel\<close> empties the tables and the counter. It does not write
  \<open>stats.ghostModelConfidence\<close>, which keeps its value.
\<close>

definition resetGhostModel :: "ghost_model \<Rightarrow> ghost_model" where
  "resetGhostModel st =
     \<lparr>ghostObservations = [0 \<mapsto> Map.empty, 1 \<mapsto> Map.empty, 2 \<mapsto> Map.empty, 3 \<mapsto> Map.empty],
      totalObservations = 0,
      ghostModelConfidence = ghostModelConfidence st\<rparr>"

text \<open>\<open>obs[d] || 0\<close>: an absent count reads as zero.\<close>

definition orZero :: "nat option \<Rightarrow> nat" where
  "orZero v = (case v of None \<Rightarrow> 0 | Some c \<Rightarrow> c)"

text \<open>
  \<open>recordGhostMove\<close>. Reading \<open>ghostObservations[ghostIdx][situation]\<close> for an index
  without a table throws a TypeError. A fresh bucket starts with the four counts at
  zero. \<open>bucket[move]++\<close> on an absent key stores NaN, which every reader (\<open>|| 0\<close>) treats
  as the absent key; the model leaves the key absent.
\<close>

definition recordGhostMove :: "ghost_model \<Rightarrow> nat \<Rightarrow> pos \<Rightarrow> pos \<Rightarrow> direction \<Rightarrow> error + ghost_model" where
  "recordGhostMove st ghostIdx ghostPos pacmanPos move =
     (if move = NONE then Inr st
      else
        let situation = getSituation ghostPos pacmanPos in
        case ghostObservations st ghostIdx of
          None \<Rightarrow> Inl TypeError
        | Some tbl \<Rightarrow>
            let bucket = (case tbl situation of
                            None \<Rightarrow> [UP \<mapsto> 0, DOWN \<mapsto> 0, LEFT \<mapsto> 0, RIGHT \<mapsto> 0]
                          | Some b \<Rightarrow> b);
                bucket' = (case bucket move of
                             None \<Rightarrow> bucket
                           | Some c \<Rightarrow> bucket(move \<mapsto> c + 1));
                total = totalObservations st + 1
            in Inr \<lparr>ghostObservations = (ghostObservations st)(ghostIdx \<mapsto> tbl(situation \<mapsto> bucket')),
                    totalObservations = total,
                    ghostModelConfidence = min 100 (Math_round (of_nat total / 2))\<rparr>)"

text \<open>
  \<open>getGhostMoveProbabilities\<close>, with the model state it leaves behind. The result maps
  each of the four directions to its probability. The quotient \<open>count / total\<close> is taken
  exactly here; \<open>getGhostMoveProbabilitiesDouble\<close> below rounds it as the code does.
\<close>

definition SMOOTHING :: nat where
  "SMOOTHING = 1"

definition getGhostMoveProbabilities ::
  "ghost_model \<Rightarrow> nat \<Rightarrow> pos \<Rightarrow> pos \<Rightarrow> error + ((direction \<rightharpoonup> real) \<times> ghost_model)" where
  "getGhostMoveProbabilities st ghostIdx ghostPos pacmanPos =
     (let situation = getSituation ghostPos pacmanPos in
      case ghostObservations st ghostIdx of
        None \<Rightarrow> Inl TypeError
      | Some tbl \<Rightarrow>
          (case tbl situation of
             None \<Rightarrow> Inr (fold (\<lambda>d probs. probs(d \<mapsto> 1 / 4)) directions Map.empty, st)
           | Some obs \<Rightarrow>
               let total = fold (\<lambda>d total. total + orZero (obs d)) directions (SMOOTHING * 4)
               in Inr (fold (\<lambda>d probs. probs(d \<mapsto> of_nat (orZero (obs d) + SMOOTHING) / of_nat total))
                         directions Map.empty, st)))"

text \<open>
  The quotient of two positive integers as the code computes it: the double nearest to
  \<open>n / d\<close>, with a significand of 53 bits and ties to the even significand. \<open>scale\<close> is
  the power of two that brings the quotient into the range from \<open>2 ^ 52\<close> to \<open>2 ^ 53\<close>,
  where the doubles are the integers. The quotients of the model lie far inside the
  exponent range of the doubles.
\<close>

fun bitLength :: "nat \<Rightarrow> nat" where
  "bitLength n = (if n = 0 then 0 else Suc (bitLength (n div 2)))"

declare bitLength.simps [simp del]

definition roundHalfEven :: "real \<Rightarrow> int" where
  "roundHalfEven x =
     (let f = \<lfloor>x\<rfloor>;
          r = x - of_int f
      in if r < 1 / 2 then f
         else if 1 / 2 < r then f + 1
         else if even f then f else f + 1)"

definition doubleDiv :: "nat \<Rightarrow> nat \<Rightarrow> real" where
  "doubleDiv n d =
     (let k = (if 2 ^ 53 * (real d * 2 ^ bitLength n) \<le> real n * 2 ^ (53 + bitLength d)
               then 52 + bitLength d else 53 + bitLength d);
          scale = 2 ^ k / 2 ^ bitLength n
      in of_int (roundHalfEven (real n / real d * scale)) / scale)"

text \<open>
  \<open>getGhostMoveProbabilities\<close> with the probabilities as the doubles that the code
  returns: \<open>0.25\<close> is a double, and \<open>count / total\<close> is the rounded quotient of two
  integers.
\<close>

definition getGhostMoveProbabilitiesDouble ::
  "ghost_model \<Rightarrow> nat \<Rightarrow> pos \<Rightarrow> pos \<Rightarrow> error + ((direction \<rightharpoonup> real) \<times> ghost_model)" where
  "getGhostMoveProbabilitiesDouble st ghostIdx ghostPos pacmanPos =
     (let situation = getSituation ghostPos pacmanPos in
      case ghostObservations st ghostIdx of
        None \<Rightarrow> Inl TypeError
      | Some tbl \<Rightarrow>
          (case tbl situation of
             None \<Rightarrow> Inr (fold (\<lambda>d probs. probs(d \<mapsto> 1 / 4)) directions Map.empty, st)
           | Some obs \<Rightarrow>
               let total = fold (\<lambda>d total. total + orZero (obs d)) directions (SMOOTHING * 4)
               in Inr (fold (\<lambda>d probs. probs(d \<mapsto> doubleDiv (orZero (obs d) + SMOOTHING) total))
                         directions Map.empty, st)))"

text \<open>
  The count the probability query reads for a direction: zero for an absent bucket or
  an absent key.
\<close>

definition readCount :: "ghost_model \<Rightarrow> nat \<Rightarrow> string \<Rightarrow> direction \<Rightarrow> nat" where
  "readCount st ghostIdx situation d =
     (case ghostObservations st ghostIdx of
        None \<Rightarrow> 0
      | Some tbl \<Rightarrow> (case tbl situation of None \<Rightarrow> 0 | Some obs \<Rightarrow> orZero (obs d)))"

text \<open>
  Every bucket that \<open>recordGhostMove\<close> creates holds a count for each of the four
  directions.
\<close>

definition bucketsComplete :: "ghost_model \<Rightarrow> bool" where
  "bucketsComplete st =
     (\<forall>i tbl s b. ghostObservations st i = Some tbl \<longrightarrow> tbl s = Some b \<longrightarrow>
        dom b = {UP, DOWN, LEFT, RIGHT})"

text \<open>
  The models that the code builds: the model at the start, and every model that a call
  of \<open>resetGhostModel\<close> or of \<open>recordGhostMove\<close> leaves behind.
\<close>

inductive reachableModel :: "ghost_model \<Rightarrow> bool" where
  atStart: "reachableModel initialGhostModel"
| afterReset: "reachableModel st \<Longrightarrow> reachableModel (resetGhostModel st)"
| afterRecord: "reachableModel st \<Longrightarrow> recordGhostMove st ghostIdx ghostPos pacmanPos move = Inr st' \<Longrightarrow>
     reachableModel st'"

section \<open>JavaScript numbers\<close>

text \<open>
  A search value is a JavaScript number: a finite number (taken as a real number),
  \<open>Infinity\<close>, \<open>-Infinity\<close> or \<open>NaN\<close>. Comparisons with \<open>NaN\<close> are false, and \<open>Math.max\<close>
  and \<open>Math.min\<close> return \<open>NaN\<close> when an argument is.
\<close>

datatype jsnum = Num real | Infinity | NegInfinity | NaN

fun js_lt :: "jsnum \<Rightarrow> jsnum \<Rightarrow> bool" where
  "js_lt NaN _ = False"
| "js_lt _ NaN = False"
| "js_lt (Num a) (Num b) = (a < b)"
| "js_lt _ NegInfinity = False"
| "js_lt NegInfinity _ = True"
| "js_lt Infinity _ = False"
| "js_lt (Num a) Infinity = True"

fun js_le :: "jsnum \<Rightarrow> jsnum \<Rightarrow> bool" where
  "js_le NaN _ = False"
| "js_le _ NaN = False"
| "js_le (Num a) (Num b) = (a \<le> b)"
| "js_le NegInfinity _ = True"
| "js_le _ Infinity = True"
| "js_le Infinity _ = False"
| "js_le (Num a) NegInfinity = False"

definition js_gt :: "jsnum \<Rightarrow> jsnum \<Rightarrow> bool" where
  "js_gt a b = js_lt b a"

fun Math_max :: "jsnum \<Rightarrow> jsnum \<Rightarrow> jsnum" where
  "Math_max NaN _ = NaN"
| "Math_max _ NaN = NaN"
| "Math_max a b = (if js_lt a b then b else a)"

fun Math_min :: "jsnum \<Rightarrow> jsnum \<Rightarrow> jsnum" where
  "Math_min NaN _ = NaN"
| "Math_min _ NaN = NaN"
| "Math_min a b = (if js_lt b a then b else a)"

fun js_add :: "jsnum \<Rightarrow> jsnum \<Rightarrow> jsnum" where
  "js_add NaN _ = NaN"
| "js_add _ NaN = NaN"
| "js_add (Num a) (Num b) = Num (a + b)"
| "js_add Infinity NegInfinity = NaN"
| "js_add NegInfinity Infinity = NaN"
| "js_add Infinity _ = Infinity"
| "js_add _ Infinity = Infinity"
| "js_add NegInfinity _ = NegInfinity"
| "js_add _ NegInfinity = NegInfinity"

fun js_neg :: "jsnum \<Rightarrow> jsnum" where
  "js_neg (Num a) = Num (- a)"
| "js_neg Infinity = NegInfinity"
| "js_neg NegInfinity = Infinity"
| "js_neg NaN = NaN"

definition js_sub :: "jsnum \<Rightarrow> jsnum \<Rightarrow> jsnum" where
  "js_sub a b = js_add a (js_neg b)"

fun js_mul :: "jsnum \<Rightarrow> jsnum \<Rightarrow> jsnum" where
  "js_mul NaN _ = NaN"
| "js_mul _ NaN = NaN"
| "js_mul (Num a) (Num b) = Num (a * b)"
| "js_mul (Num a) Infinity = (if a = 0 then NaN else if 0 < a then Infinity else NegInfinity)"
| "js_mul (Num a) NegInfinity = (if a = 0 then NaN else if 0 < a then NegInfinity else Infinity)"
| "js_mul Infinity (Num b) = (if b = 0 then NaN else if 0 < b then Infinity else NegInfinity)"
| "js_mul NegInfinity (Num b) = (if b = 0 then NaN else if 0 < b then NegInfinity else Infinity)"
| "js_mul Infinity Infinity = Infinity"
| "js_mul NegInfinity NegInfinity = Infinity"
| "js_mul Infinity NegInfinity = NegInfinity"
| "js_mul NegInfinity Infinity = NegInfinity"

text \<open>\<open>v || Infinity\<close>: an absent entry, zero and \<open>NaN\<close> are falsy and read as \<open>Infinity\<close>.\<close>

definition orInfinity :: "jsnum option \<Rightarrow> jsnum" where
  "orInfinity v =
     (case v of
        None \<Rightarrow> Infinity
      | Some n \<Rightarrow> if n = Num 0 \<or> n = NaN then Infinity else n)"

section \<open>Anti-oscillation tracker\<close>

record tracker =
  moveHistory :: "cell list"
  positionVisitCount :: "cell \<rightharpoonup> nat"

definition HISTORY_LENGTH :: nat where
  "HISTORY_LENGTH = 16"

definition opposites :: "direction \<rightharpoonup> direction" where
  "opposites = [UP \<mapsto> DOWN, DOWN \<mapsto> UP, LEFT \<mapsto> RIGHT, RIGHT \<mapsto> LEFT]"

text \<open>The grid deltas of the four moves; \<open>deltas[NONE]\<close> is undefined.\<close>

definition gridDeltas :: "direction \<rightharpoonup> int \<times> int" where
  "gridDeltas = [UP \<mapsto> (0, - 1), DOWN \<mapsto> (0, 1), LEFT \<mapsto> (- 1, 0), RIGHT \<mapsto> (1, 0)]"

text \<open>
  What the history entry at index \<open>i\<close> of a buffer holding \<open>n\<close> entries adds when it
  matches: \<open>50 * (1 + (moveHistory.length - i) / moveHistory.length)\<close>. New entries are
  pushed at the end, so index \<open>0\<close> is the oldest entry.
\<close>

definition entryPenalty :: "nat \<Rightarrow> nat \<Rightarrow> real" where
  "entryPenalty n i = 50 * (1 + (of_nat n - of_nat i) / of_nat n)"

text \<open>
  \<open>getOscillationPenalty\<close>; \<open>lastMove\<close> may be \<open>undefined\<close> (\<open>None\<close>). Reading
  \<open>deltas[move].x\<close> for a move without a delta throws a TypeError.
\<close>

definition getOscillationPenalty :: "tracker \<Rightarrow> pos \<Rightarrow> direction \<Rightarrow> direction option \<Rightarrow> error + real" where
  "getOscillationPenalty tr p move lastMove =
     (let penalty0 = (case lastMove of
                        None \<Rightarrow> 0
                      | Some l \<Rightarrow> if l \<noteq> NONE \<and> Some move = opposites l then 50 else 0)
      in case gridDeltas move of
           None \<Rightarrow> Inl TypeError
         | Some (dx, dy) \<Rightarrow>
             let posKey = Cell (Math_round (px p / 10) + dx) (Math_round (py p / 10) + dy);
                 n = length (moveHistory tr);
                 penalty1 = fold (\<lambda>i penalty.
                                    if moveHistory tr ! i = posKey then penalty + entryPenalty n i
                                    else penalty)
                              [0..<n] penalty0;
                 visitCount = orZero (positionVisitCount tr posKey)
             in Inr (if visitCount > 2 then penalty1 + (of_nat visitCount - 2) ^ 2 * 30
                     else penalty1))"

definition recordPosition :: "tracker \<Rightarrow> pos \<Rightarrow> tracker" where
  "recordPosition tr p =
     (let posKey = Cell (Math_round (px p / 10)) (Math_round (py p / 10));
          pushed = moveHistory tr @ [posKey];
          history = (if length pushed > HISTORY_LENGTH then tl pushed else pushed)
      in \<lparr>moveHistory = history,
          positionVisitCount = (positionVisitCount tr)(posKey \<mapsto> orZero (positionVisitCount tr posKey) + 1)\<rparr>)"

section \<open>Map interface\<close>

text \<open>
  Modelled from the spec: the map object and the tile constants \<open>Pacman.BISCUIT\<close> and
  \<open>Pacman.PILL\<close> belong to the game engine, which is not part of the sources. The map is
  taken as a parameter with the two queries the algorithms call: \<open>isFloorSpace\<close>, the
  floor test of a cell, and \<open>getMap\<close>, the rows of tiles; a tile is a wall, a plain floor
  cell, a pellet or a power pellet.
\<close>

datatype tile = WALL | EMPTY | BISCUIT | PILL

record gamemap =
  isFloorSpace :: "cell \<Rightarrow> bool"
  getMap :: "tile list list"

text \<open>\<open>mapData[y] && mapData[y][x]\<close>: an index outside the array reads \<open>undefined\<close>.\<close>

definition tileAt :: "tile list list \<Rightarrow> cell \<Rightarrow> tile option" where
  "tileAt mapData c =
     (if 0 \<le> cy c \<and> nat (cy c) < length mapData
      then let row = mapData ! nat (cy c)
           in if 0 \<le> cx c \<and> nat (cx c) < length row then Some (row ! nat (cx c)) else None
      else None)"

definition getValidMoves :: "gamemap \<Rightarrow> pos \<Rightarrow> direction list" where
  "getValidMoves m p =
     (let gridX = Math_round (px p / 10);
          gridY = Math_round (py p / 10)
      in filter (\<lambda>dir. case gridDeltas dir of
                         None \<Rightarrow> False
                       | Some (dx, dy) \<Rightarrow> isFloorSpace m (Cell (gridX + dx) (gridY + dy)))
           directions)"

section \<open>Static evaluator\<close>

record ghost_state =
  isEdible :: bool
  isDangerous :: bool

text \<open>
  The first loop of \<open>evaluateState\<close> walks the ghost positions with their states,
  \<open>ghostStates[i].isEdible\<close>; a position without a state throws a TypeError.
\<close>

fun partitionGhosts :: "pos list \<Rightarrow> ghost_state list \<Rightarrow> error + (pos list \<times> pos list)" where
  "partitionGhosts [] _ = Inr ([], [])"
| "partitionGhosts (g # gs) [] = Inl TypeError"
| "partitionGhosts (g # gs) (s # ss) =
     (case partitionGhosts gs ss of
        Inl e \<Rightarrow> Inl e
      | Inr (dangerousGhosts, edibleGhosts) \<Rightarrow>
          if isEdible s then Inr (dangerousGhosts, g # edibleGhosts)
          else Inr (g # dangerousGhosts, edibleGhosts))"

text \<open>\<open>Math.min.apply(Math, ghosts.map(distance))\<close>; the minimum of no numbers is \<open>Infinity\<close>.\<close>

definition nearestGhostDistance :: "cell \<Rightarrow> pos list \<Rightarrow> jsnum" where
  "nearestGhostDistance pacmanGrid ghosts =
     fold (\<lambda>g a. Math_min a (Num (of_int (manhattanDistance pacmanGrid (toGrid g))))) ghosts Infinity"

text \<open>The cells of the map in the order of the two nested loops, rows first.\<close>

definition mapCells :: "tile list list \<Rightarrow> (cell \<times> tile) list" where
  "mapCells mapData =
     concat (map (\<lambda>(y, row). map (\<lambda>(x, t). (Cell (int x) (int y), t)) (enumerate 0 row))
               (enumerate 0 mapData))"

definition findNearestPellet :: "gamemap \<Rightarrow> cell \<Rightarrow> cell option" where
  "findNearestPellet m p =
     fst (fold (\<lambda>(c, t) (nearest, minDist).
                  if t = BISCUIT \<or> t = PILL
                  then let dist = Num (of_int (manhattanDistance p c))
                       in if js_lt dist minDist then (Some c, dist) else (nearest, minDist)
                  else (nearest, minDist))
            (mapCells (getMap m)) (None, Infinity))"

definition evaluateState :: "gamemap \<Rightarrow> pos \<Rightarrow> pos list \<Rightarrow> ghost_state list \<Rightarrow> error + real" where
  "evaluateState m pacmanPos ghostPositions ghostStates =
     (let pacmanGrid = toGrid pacmanPos;
          mapData = getMap m
      in case partitionGhosts ghostPositions ghostStates of
           Inl e \<Rightarrow> Inl e
         | Inr (dangerousGhosts, edibleGhosts) \<Rightarrow>
             let score1 = fold (\<lambda>g score.
                                  let dist = manhattanDistance pacmanGrid (toGrid g)
                                  in if dist < 2 then score - 2000
                                     else if dist < 4 then score - 500 / of_int dist
                                     else if dist < 8 then score - 50 / of_int dist
                                     else score)
                            dangerousGhosts 0;
                 score2 = fold (\<lambda>g score.
                                  let dist = manhattanDistance pacmanGrid (toGrid g)
                                  in if dist = 0 then score + 1000
                                     else if dist < 5 then score + 400 / of_int dist
                                     else if dist < 10 then score + 100 / of_int dist
                                     else score)
                            edibleGhosts score1;
                 score3 = (if tileAt mapData pacmanGrid = Some BISCUIT then score2 + 50 else score2);
                 score4 = (if tileAt mapData pacmanGrid = Some PILL
                           then let powerPelletValue =
                                      (if dangerousGhosts \<noteq> [] \<and> edibleGhosts = [] \<and>
                                          js_lt (nearestGhostDistance pacmanGrid dangerousGhosts) (Num 10)
                                       then 500 else 150)
                                in score3 + powerPelletValue
                           else score3);
                 score5 = (if edibleGhosts = [] \<and>
                              (dangerousGhosts = [] \<or>
                               js_gt (nearestGhostDistance pacmanGrid dangerousGhosts) (Num 8))
                           then (case findNearestPellet m pacmanGrid of
                                   None \<Rightarrow> score4
                                 | Some nearestPellet \<Rightarrow>
                                     score4 + (30 - of_int (manhattanDistance pacmanGrid nearestPellet)))
                           else score4)
             in Inr score5)"

section \<open>Minimax\<close>

text \<open>The pixel deltas of the four moves.\<close>

definition pixelDeltas :: "direction \<rightharpoonup> real \<times> real" where
  "pixelDeltas = [UP \<mapsto> (0, - 10), DOWN \<mapsto> (0, 10), LEFT \<mapsto> (- 10, 0), RIGHT \<mapsto> (10, 0)]"

text \<open>\<open>xs.map(f)\<close> for a callback that may throw: the first exception ends the call.\<close>

fun mapE :: "('a \<Rightarrow> error + 'b) \<Rightarrow> 'a list \<Rightarrow> error + 'b list" where
  "mapE f [] = Inr []"
| "mapE f (x # xs) =
     (case f x of
        Inl e \<Rightarrow> Inl e
      | Inr y \<Rightarrow> (case mapE f xs of Inl e \<Rightarrow> Inl e | Inr ys \<Rightarrow> Inr (y # ys)))"

text \<open>\<open>ghostStates[idx]\<close>: \<open>undefined\<close> beyond the end of the array.\<close>

definition stateAt :: "ghost_state list \<Rightarrow> nat \<Rightarrow> ghost_state option" where
  "stateAt ghostStates idx = (if idx < length ghostStates then Some (ghostStates ! idx) else None)"

text \<open>The callback that moves one ghost in the ghosts' turn of \<open>minimax\<close>.\<close>

definition minimaxGhostStep :: "gamemap \<Rightarrow> pos \<Rightarrow> ghost_state list \<Rightarrow> pos \<Rightarrow> nat \<Rightarrow> error + pos" where
  "minimaxGhostStep m pacmanPos ghostStates gPos idx =
     (let gGrid = toGrid gPos;
          pGrid = toGrid pacmanPos;
          dx = cx pGrid - cx gGrid;
          dy = cy pGrid - cy gGrid
      in case stateAt ghostStates idx of
           None \<Rightarrow> Inl TypeError
         | Some gs \<Rightarrow>
             let multiplier = (if isEdible gs then - 1 else 1);
                 moveX = (if dx \<noteq> 0 then (if dx > 0 then 10 * multiplier else - 10 * multiplier) else 0);
                 moveY = (if dy \<noteq> 0 then (if dy > 0 then 10 * multiplier else - 10 * multiplier) else 0)
             in if \<bar>dx\<bar> > \<bar>dy\<bar> \<and> isFloorSpace m (toGrid (Pos (px gPos + moveX) (py gPos)))
                then Inr (Pos (px gPos + moveX) (py gPos))
                else if isFloorSpace m (toGrid (Pos (px gPos) (py gPos + moveY)))
                then Inr (Pos (px gPos) (py gPos + moveY))
                else Inr gPos)"

definition minimaxGhostPly :: "gamemap \<Rightarrow> pos \<Rightarrow> pos list \<Rightarrow> ghost_state list \<Rightarrow> error + pos list" where
  "minimaxGhostPly m pacmanPos ghostPositions ghostStates =
     mapE (\<lambda>(gPos, idx). minimaxGhostStep m pacmanPos ghostStates gPos idx)
       (zip ghostPositions [0..<length ghostPositions])"

text \<open>
  The loop of Pac-Man's turn. \<open>child\<close> is the recursive call for a new position, the
  current \<open>alpha\<close> and the node counter; the loop ends early once \<open>beta <= alpha\<close>.
\<close>

fun minimaxMaxLoop ::
  "(pos \<Rightarrow> jsnum \<Rightarrow> nat \<Rightarrow> error + (jsnum \<times> nat)) \<Rightarrow> pos \<Rightarrow> direction list \<Rightarrow>
     jsnum \<Rightarrow> jsnum \<Rightarrow> jsnum \<Rightarrow> nat \<Rightarrow> error + (jsnum \<times> nat)" where
  "minimaxMaxLoop child pacmanPos [] maxEval alpha beta nodes = Inr (maxEval, nodes)"
| "minimaxMaxLoop child pacmanPos (move # rest) maxEval alpha beta nodes =
     (case pixelDeltas move of
        None \<Rightarrow> Inl TypeError
      | Some (dx, dy) \<Rightarrow>
          (case child (Pos (px pacmanPos + dx) (py pacmanPos + dy)) alpha nodes of
             Inl e \<Rightarrow> Inl e
           | Inr (evalScore, nodes') \<Rightarrow>
               let maxEval' = Math_max maxEval evalScore;
                   alpha' = Math_max alpha evalScore
               in if js_le beta alpha' then Inr (maxEval', nodes')
                  else minimaxMaxLoop child pacmanPos rest maxEval' alpha' beta nodes'))"

text \<open>
  \<open>minimax\<close>, with the node counter \<open>nodesRef.count\<close> passed in and returned. The depth
  is a natural number: the callers pass \<open>depth - 1\<close> for a depth of at least one.
\<close>

primrec minimax ::
  "gamemap \<Rightarrow> pos \<Rightarrow> pos list \<Rightarrow> ghost_state list \<Rightarrow> nat \<Rightarrow> bool \<Rightarrow> jsnum \<Rightarrow> jsnum \<Rightarrow> nat \<Rightarrow>
     error + (jsnum \<times> nat)" where
  "minimax m pacmanPos ghostPositions ghostStates 0 isMaximizing alpha beta nodes =
     (case evaluateState m pacmanPos ghostPositions ghostStates of
        Inl e \<Rightarrow> Inl e
      | Inr v \<Rightarrow> Inr (Num v, nodes + 1))"
| "minimax m pacmanPos ghostPositions ghostStates (Suc d) isMaximizing alpha beta nodes =
     (let validMoves = getValidMoves m pacmanPos
      in if validMoves = []
         then (case evaluateState m pacmanPos ghostPositions ghostStates of
                 Inl e \<Rightarrow> Inl e
               | Inr v \<Rightarrow> Inr (Num v, nodes + 1))
         else if isMaximizing
         then minimaxMaxLoop (\<lambda>newPos a n. minimax m newPos ghostPositions ghostStates d False a beta n)
                pacmanPos validMoves NegInfinity alpha beta (nodes + 1)
         else (case minimaxGhostPly m pacmanPos ghostPositions ghostStates of
                 Inl e \<Rightarrow> Inl e
               | Inr newGhostPositions \<Rightarrow>
                   (case minimax m pacmanPos newGhostPositions ghostStates d True alpha beta (nodes + 1) of
                      Inl e \<Rightarrow> Inl e
                    | Inr (evalScore, nodes') \<Rightarrow> Inr (Math_min Infinity evalScore, nodes'))))"

text \<open>
  \<open>PacmanControllers.minimax\<close>. The result holds the chosen move, the best score of the
  root (the search value less the oscillation penalty), the node count handed to
  \<open>recordDecision\<close> and the tracker after \<open>recordPosition\<close>. \<open>depth || 4\<close> replaces a
  depth of zero by four. Without a valid move the controller returns \<open>NONE\<close> at once.
\<close>

record decision =
  bestMove :: direction
  bestScore :: jsnum
  nodeCount :: nat
  trackerAfter :: tracker

fun rootLoop ::
  "(pos \<Rightarrow> nat \<Rightarrow> error + (jsnum \<times> nat)) \<Rightarrow> tracker \<Rightarrow> pos \<Rightarrow> direction option \<Rightarrow>
     direction list \<Rightarrow> direction \<Rightarrow> jsnum \<Rightarrow> nat \<Rightarrow> error + (direction \<times> jsnum \<times> nat)" where
  "rootLoop search tr pacmanPos lastMove [] best bestSc nodes = Inr (best, bestSc, nodes)"
| "rootLoop search tr pacmanPos lastMove (move # rest) best bestSc nodes =
     (case pixelDeltas move of
        None \<Rightarrow> Inl TypeError
      | Some (dx, dy) \<Rightarrow>
          (case search (Pos (px pacmanPos + dx) (py pacmanPos + dy)) nodes of
             Inl e \<Rightarrow> Inl e
           | Inr (value, nodes') \<Rightarrow>
               (case getOscillationPenalty tr pacmanPos move lastMove of
                  Inl e \<Rightarrow> Inl e
                | Inr penalty \<Rightarrow>
                    let score = js_sub value (Num penalty)
                    in if js_gt score bestSc
                       then rootLoop search tr pacmanPos lastMove rest move score nodes'
                       else rootLoop search tr pacmanPos lastMove rest best bestSc nodes')))"

definition rootDecision ::
  "(pos \<Rightarrow> nat \<Rightarrow> error + (jsnum \<times> nat)) \<Rightarrow> tracker \<Rightarrow> gamemap \<Rightarrow> pos \<Rightarrow> direction option \<Rightarrow>
     error + decision" where
  "rootDecision search tr m pacmanPos lastMove =
     (let validMoves = getValidMoves m pacmanPos
      in if validMoves = []
         then Inr \<lparr>bestMove = NONE, bestScore = NegInfinity, nodeCount = 0, trackerAfter = tr\<rparr>
         else (case rootLoop search tr pacmanPos lastMove validMoves (hd validMoves) NegInfinity 0 of
                 Inl e \<Rightarrow> Inl e
               | Inr (best, bestSc, nodes) \<Rightarrow>
                   Inr \<lparr>bestMove = best, bestScore = bestSc, nodeCount = nodes,
                        trackerAfter = recordPosition tr pacmanPos\<rparr>))"

definition PacmanControllers_minimax ::
  "tracker \<Rightarrow> gamemap \<Rightarrow> pos \<Rightarrow> pos list \<Rightarrow> ghost_state list \<Rightarrow> nat \<Rightarrow> direction option \<Rightarrow>
     error + decision" where
  "PacmanControllers_minimax tr m pacmanPos ghostPositions ghostStates depth lastMove =
     (let depth' = (if depth = 0 then 4 else depth)
      in rootDecision
           (\<lambda>newPos n. minimax m newPos ghostPositions ghostStates (depth' - 1) False NegInfinity Infinity n)
           tr m pacmanPos lastMove)"

section \<open>Expectimax\<close>

text \<open>
  The loop of Pac-Man's turn in \<open>expectimax\<close>: the maximum over all valid moves, with
  no bounds and no early end.
\<close>

fun maxLoop ::
  "(pos \<Rightarrow> nat \<Rightarrow> error + (jsnum \<times> nat)) \<Rightarrow> pos \<Rightarrow> direction list \<Rightarrow> jsnum \<Rightarrow> nat \<Rightarrow>
     error + (jsnum \<times> nat)" where
  "maxLoop child pacmanPos [] maxEval nodes = Inr (maxEval, nodes)"
| "maxLoop child pacmanPos (move # rest) maxEval nodes =
     (case pixelDeltas move of
        None \<Rightarrow> Inl TypeError
      | Some (dx, dy) \<Rightarrow>
          (case child (Pos (px pacmanPos + dx) (py pacmanPos + dy)) nodes of
             Inl e \<Rightarrow> Inl e
           | Inr (evalScore, nodes') \<Rightarrow>
               maxLoop child pacmanPos rest (Math_max maxEval evalScore) nodes'))"

text \<open>\<open>probs[dir]\<close> as a number: an absent key reads \<open>undefined\<close>, which compares and multiplies as \<open>NaN\<close>.\<close>

definition probOf :: "(direction \<rightharpoonup> real) \<Rightarrow> direction \<Rightarrow> jsnum" where
  "probOf probs dir = (case probs dir of None \<Rightarrow> NaN | Some p \<Rightarrow> Num p)"

text \<open>
  The callback that moves one ghost for the sampled direction \<open>dir\<close> of ghost 0: every
  other ghost takes the first direction of highest learned probability. The query
  leaves the model as it is, so the state it returns is not threaded further.
\<close>

definition expectimaxGhostStep ::
  "ghost_model \<Rightarrow> gamemap \<Rightarrow> pos \<Rightarrow> direction \<Rightarrow> pos \<Rightarrow> nat \<Rightarrow> error + pos" where
  "expectimaxGhostStep st m pacmanPos dir gPos idx =
     (case (if idx > 0
            then (case getGhostMoveProbabilities st idx gPos pacmanPos of
                    Inl e \<Rightarrow> Inl e
                  | Inr (otherProbs, _) \<Rightarrow>
                      Inr (fst (fold (\<lambda>d (bestDir, bestProb).
                                        if js_gt (probOf otherProbs d) bestProb
                                        then (d, probOf otherProbs d) else (bestDir, bestProb))
                                  directions (UP, Num 0))))
            else Inr dir) of
        Inl e \<Rightarrow> Inl e
      | Inr moveDir \<Rightarrow>
          (case pixelDeltas moveDir of
             None \<Rightarrow> Inl TypeError
           | Some (dx, dy) \<Rightarrow>
               let testPos = Pos (px gPos + dx) (py gPos + dy)
               in if isFloorSpace m (toGrid testPos) then Inr testPos else Inr gPos))"

definition expectimaxGhostPly ::
  "ghost_model \<Rightarrow> gamemap \<Rightarrow> pos \<Rightarrow> pos list \<Rightarrow> direction \<Rightarrow> error + pos list" where
  "expectimaxGhostPly st m pacmanPos ghostPositions dir =
     mapE (\<lambda>(gPos, idx). expectimaxGhostStep st m pacmanPos dir gPos idx)
       (zip ghostPositions [0..<length ghostPositions])"

text \<open>
  The loop of the ghosts' turn: a direction whose probability is below \<open>0.01\<close> is
  skipped, every other one adds \<open>prob * evalScore\<close> to the expected value.
\<close>

fun expectimaxChanceLoop ::
  "(direction \<Rightarrow> nat \<Rightarrow> error + (jsnum \<times> nat)) \<Rightarrow> (direction \<rightharpoonup> real) \<Rightarrow> direction list \<Rightarrow>
     jsnum \<Rightarrow> nat \<Rightarrow> error + (jsnum \<times> nat)" where
  "expectimaxChanceLoop child probs [] expectedValue nodes = Inr (expectedValue, nodes)"
| "expectimaxChanceLoop child probs (dir # rest) expectedValue nodes =
     (let prob = probOf probs dir
      in if js_lt prob (Num (1 / 100))
         then expectimaxChanceLoop child probs rest expectedValue nodes
         else (case child dir nodes of
                 Inl e \<Rightarrow> Inl e
               | Inr (evalScore, nodes') \<Rightarrow>
                   expectimaxChanceLoop child probs rest
                     (js_add expectedValue (js_mul prob evalScore)) nodes'))"

text \<open>\<open>ghostPositions[0]\<close> is \<open>undefined\<close> for no ghosts, and reading its \<open>x\<close> throws a TypeError.\<close>

primrec expectimax ::
  "ghost_model \<Rightarrow> gamemap \<Rightarrow> pos \<Rightarrow> pos list \<Rightarrow> ghost_state list \<Rightarrow> nat \<Rightarrow> bool \<Rightarrow> nat \<Rightarrow>
     error + (jsnum \<times> nat)" where
  "expectimax st m pacmanPos ghostPositions ghostStates 0 isMaximizing nodes =
     (case evaluateState m pacmanPos ghostPositions ghostStates of
        Inl e \<Rightarrow> Inl e
      | Inr v \<Rightarrow> Inr (Num v, nodes + 1))"
| "expectimax st m pacmanPos ghostPositions ghostStates (Suc d) isMaximizing nodes =
     (let validMoves = getValidMoves m pacmanPos
      in if validMoves = []
         then (case evaluateState m pacmanPos ghostPositions ghostStates of
                 Inl e \<Rightarrow> Inl e
               | Inr v \<Rightarrow> Inr (Num v, nodes + 1))
         else if isMaximizing
         then maxLoop (\<lambda>newPos n. expectimax st m newPos ghostPositions ghostStates d False n)
                pacmanPos validMoves NegInfinity (nodes + 1)
         else (case ghostPositions of
                 [] \<Rightarrow> Inl TypeError
               | g0 # _ \<Rightarrow>
                   (case getGhostMoveProbabilities st 0 g0 pacmanPos of
                      Inl e \<Rightarrow> Inl e
                    | Inr (probs, _) \<Rightarrow>
                        expectimaxChanceLoop
                          (\<lambda>dir n. case expectimaxGhostPly st m pacmanPos ghostPositions dir of
                                      Inl e \<Rightarrow> Inl e
                                    | Inr newGhostPositions \<Rightarrow>
                                        expectimax st m pacmanPos newGhostPositions ghostStates d True n)
                          probs directions (Num 0) (nodes + 1))))"

section \<open>Minimax without pruning\<close>

text \<open>
  The search the specification compares with: the recursion of \<open>minimax\<close> with no
  \<open>alpha\<close>, no \<open>beta\<close> and no early end of the loop of Pac-Man's turn, which then is
  the loop \<open>maxLoop\<close>.
\<close>

primrec minimaxNoPruning ::
  "gamemap \<Rightarrow> pos \<Rightarrow> pos list \<Rightarrow> ghost_state list \<Rightarrow> nat \<Rightarrow> bool \<Rightarrow> nat \<Rightarrow> error + (jsnum \<times> nat)" where
  "minimaxNoPruning m pacmanPos ghostPositions ghostStates 0 isMaximizing nodes =
     (case evaluateState m pacmanPos ghostPositions ghostStates of
        Inl e \<Rightarrow> Inl e
      | Inr v \<Rightarrow> Inr (Num v, nodes + 1))"
| "minimaxNoPruning m pacmanPos ghostPositions ghostStates (Suc d) isMaximizing nodes =
     (let validMoves = getValidMoves m pacmanPos
      in if validMoves = []
         then (case evaluateState m pacmanPos ghostPositions ghostStates of
                 Inl e \<Rightarrow> Inl e
               | Inr v \<Rightarrow> Inr (Num v, nodes + 1))
         else if isMaximizing
         then maxLoop (\<lambda>newPos n. minimaxNoPruning m newPos ghostPositions ghostStates d False n)
                pacmanPos validMoves NegInfinity (nodes + 1)
         else (case minimaxGhostPly m pacmanPos ghostPositions ghostStates of
                 Inl e \<Rightarrow> Inl e
               | Inr newGhostPositions \<Rightarrow>
                   (case minimaxNoPruning m pacmanPos newGhostPositions ghostStates d True (nodes + 1) of
                      Inl e \<Rightarrow> Inl e
                    | Inr (evalScore, nodes') \<Rightarrow> Inr (Math_min Infinity evalScore, nodes'))))"

definition PacmanControllers_minimaxNoPruning ::
  "tracker \<Rightarrow> gamemap \<Rightarrow> pos \<Rightarrow> pos list \<Rightarrow> ghost_state list \<Rightarrow> nat \<Rightarrow> direction option \<Rightarrow>
     error + decision" where
  "PacmanControllers_minimaxNoPruning tr m pacmanPos ghostPositions ghostStates depth lastMove =
     (let depth' = (if depth = 0 then 4 else depth)
      in rootDecision
           (\<lambda>newPos n. minimaxNoPruning m newPos ghostPositions ghostStates (depth' - 1) False n)
           tr m pacmanPos lastMove)"

section \<open>A* pathfinding\<close>

definition TUNNEL_ROW :: int where
  "TUNNEL_ROW = 10"

definition MAP_WIDTH :: int where
  "MAP_WIDTH = 19"

definition tunnelAwareDistance :: "cell \<Rightarrow> cell \<Rightarrow> int" where
  "tunnelAwareDistance pos1 pos2 =
     (let directDist = \<bar>cx pos1 - cx pos2\<bar> + \<bar>cy pos1 - cy pos2\<bar>;
          pos1ToTunnelLeft = \<bar>cx pos1 - 0\<bar> + \<bar>cy pos1 - TUNNEL_ROW\<bar>;
          pos1ToTunnelRight = \<bar>cx pos1 - (MAP_WIDTH - 1)\<bar> + \<bar>cy pos1 - TUNNEL_ROW\<bar>;
          pos2ToTunnelLeft = \<bar>cx pos2 - 0\<bar> + \<bar>cy pos2 - TUNNEL_ROW\<bar>;
          pos2ToTunnelRight = \<bar>cx pos2 - (MAP_WIDTH - 1)\<bar> + \<bar>cy pos2 - TUNNEL_ROW\<bar>;
          tunnelDist = min (pos1ToTunnelLeft + 1 + pos2ToTunnelRight)
                           (pos1ToTunnelRight + 1 + pos2ToTunnelLeft)
      in min directDist tunnelDist)"

text \<open>The tables of one search; the cell stands for its key.\<close>

record search =
  openSet :: "cell list"
  cameFrom :: "cell \<rightharpoonup> cell"
  gScore :: "cell \<rightharpoonup> jsnum"
  fScore :: "cell \<rightharpoonup> jsnum"

record astar_result =
  direction :: direction
  nodesEvaluated :: nat

text \<open>
  \<open>openSet.reduce\<close> with no initial value starts from the first element; the callback
  keeps \<open>a\<close> only when its score is strictly lower.
\<close>

definition lowestFScore :: "(cell \<rightharpoonup> jsnum) \<Rightarrow> cell \<Rightarrow> cell list \<Rightarrow> cell" where
  "lowestFScore f first others =
     fold (\<lambda>b a. if js_lt (orInfinity (f a)) (orInfinity (f b)) then a else b) others first"

text \<open>
  The path loop \<open>while (cameFrom[key(current)])\<close> follows the back-pointers; it does not
  end on a cycle of back-pointers, which is the value \<open>None\<close>.
\<close>

partial_function (option) reconstructPath :: "(cell \<rightharpoonup> cell) \<Rightarrow> cell \<Rightarrow> cell list \<Rightarrow> cell list option" where
  "reconstructPath came current path =
     (case came current of
        None \<Rightarrow> Some path
      | Some previous \<Rightarrow> reconstructPath came previous (previous # path))"

text \<open>The direction of the first edge of the path, from the start to \<open>path[1]\<close>.\<close>

definition firstEdgeDirection :: "cell \<Rightarrow> cell \<Rightarrow> direction" where
  "firstEdgeDirection startGrid next =
     (let dx = cx next - cx startGrid;
          dy = cy next - cy startGrid
      in if cy startGrid = TUNNEL_ROW \<and> cy next = TUNNEL_ROW
         then (if cx startGrid = 0 \<and> cx next = MAP_WIDTH - 1 then LEFT
               else if cx startGrid = MAP_WIDTH - 1 \<and> cx next = 0 then RIGHT
               else if dx > 0 then RIGHT
               else if dx < 0 then LEFT
               else NONE)
         else (if dx > 0 then RIGHT
               else if dx < 0 then LEFT
               else if dy > 0 then DOWN
               else if dy < 0 then UP
               else NONE))"

definition neighborsOf :: "cell \<Rightarrow> cell list" where
  "neighborsOf current =
     [Cell (cx current + 1) (cy current), Cell (cx current - 1) (cy current),
      Cell (cx current) (cy current + 1), Cell (cx current) (cy current - 1)]
     @ (if cy current = TUNNEL_ROW
        then (if cx current = 0 then [Cell (MAP_WIDTH - 1) TUNNEL_ROW]
              else if cx current = MAP_WIDTH - 1 then [Cell 0 TUNNEL_ROW]
              else [])
        else [])"

text \<open>
  The body of the loop over the neighbours. Both \<open>continue\<close> tests skip a neighbour that
  is not floor, tunnel wrap or not.
\<close>

definition relaxNeighbor :: "gamemap \<Rightarrow> cell \<Rightarrow> cell \<Rightarrow> cell \<Rightarrow> search \<Rightarrow> search" where
  "relaxNeighbor m goalGrid current neighbor s =
     (if \<not> isFloorSpace m neighbor then s
      else
        let tentativeG = js_add (orInfinity (gScore s current)) (Num 1)
        in if js_lt tentativeG (orInfinity (gScore s neighbor))
           then \<lparr>openSet = (if list_ex (\<lambda>n. cx n = cx neighbor \<and> cy n = cy neighbor) (openSet s)
                             then openSet s else openSet s @ [neighbor]),
                 cameFrom = (cameFrom s)(neighbor \<mapsto> current),
                 gScore = (gScore s)(neighbor \<mapsto> tentativeG),
                 fScore = (fScore s)(neighbor \<mapsto>
                            js_add tentativeG (Num (of_int (tunnelAwareDistance neighbor goalGrid))))\<rparr>
           else s)"

text \<open>
  The main loop, from the loop test on. The counter grows with every iteration and the
  loop ends once it has passed 500, so the loop itself always ends.
\<close>

function astar_loop :: "gamemap \<Rightarrow> cell \<Rightarrow> cell \<Rightarrow> search \<Rightarrow> nat \<Rightarrow> astar_result option" where
  "astar_loop m startGrid goalGrid s nodes =
     (case openSet s of
        [] \<Rightarrow> Some \<lparr>direction = NONE, nodesEvaluated = nodes\<rparr>
      | first # others \<Rightarrow>
          let nodes' = nodes + 1;
              current = lowestFScore (fScore s) first others
          in if cx current = cx goalGrid \<and> cy current = cy goalGrid
             then (case reconstructPath (cameFrom s) current [current] of
                     None \<Rightarrow> None
                   | Some path \<Rightarrow>
                       if length path > 1
                       then Some \<lparr>direction = firstEdgeDirection startGrid (path ! 1),
                                  nodesEvaluated = nodes'\<rparr>
                       else Some \<lparr>direction = NONE, nodesEvaluated = nodes'\<rparr>)
             else
               let s' = fold (relaxNeighbor m goalGrid current) (neighborsOf current)
                          (s\<lparr>openSet := filter (\<lambda>n. \<not> (cx n = cx current \<and> cy n = cy current)) (openSet s)\<rparr>)
               in if nodes' > 500 then Some \<lparr>direction = NONE, nodesEvaluated = nodes'\<rparr>
                  else astar_loop m startGrid goalGrid s' nodes')"
  by pat_completeness auto
termination
  by (relation "measure (\<lambda>(m, startGrid, goalGrid, s, nodes). 501 - nodes)") auto

definition astar :: "gamemap \<Rightarrow> pos \<Rightarrow> pos \<Rightarrow> astar_result option" where
  "astar m start goal =
     (let startGrid = toGrid start;
          goalGrid = toGrid goal
      in astar_loop m startGrid goalGrid
           \<lparr>openSet = [startGrid],
            cameFrom = Map.empty,
            gScore = [startGrid \<mapsto> Num 0],
            fScore = [startGrid \<mapsto> Num (of_int (tunnelAwareDistance startGrid goalGrid))]\<rparr>
           0)"

section \<open>Example worlds\<close>

text \<open>A world without walls and without pellets.\<close>

definition emptyMap :: gamemap where
  "emptyMap = \<lparr>isFloorSpace = (\<lambda>c. True), getMap = []\<rparr>"

text \<open>The tunnel row alone: floor from column 0 to column 18 of row 10.\<close>

definition tunnelMap :: gamemap where
  "tunnelMap = \<lparr>isFloorSpace = (\<lambda>c. cy c = 10 \<and> 0 \<le> cx c \<and> cx c \<le> 18), getMap = []\<rparr>"

text \<open>An open world with one wall cell at column 2 of row 1.\<close>

definition ledgeMap :: gamemap where
  "ledgeMap = \<lparr>isFloorSpace = (\<lambda>c. c \<noteq> Cell 2 1), getMap = []\<rparr>"

text \<open>An open world with one wall cell at column 1 of row 2.\<close>

definition pitMap :: gamemap where
  "pitMap = \<lparr>isFloorSpace = (\<lambda>c. c \<noteq> Cell 1 2), getMap = []\<rparr>"

text \<open>
  The models after one and after two recordings of \<open>LEFT\<close> for ghost 0, with the ghost at
  cell \<open>1,1\<close> and Pac-Man at cell \<open>2,1\<close>.
\<close>

definition oneLeftModel :: ghost_model where
  "oneLeftModel =
     \<lparr>ghostObservations =
        [0 \<mapsto> [''HV_near'' \<mapsto> [UP \<mapsto> 0, DOWN \<mapsto> 0, LEFT \<mapsto> 1, RIGHT \<mapsto> 0]],
         1 \<mapsto> Map.empty, 2 \<mapsto> Map.empty, 3 \<mapsto> Map.empty],
      totalObservations = 1,
      ghostModelConfidence = 1\<rparr>"

definition twoLeftsModel :: ghost_model where
  "twoLeftsModel =
     \<lparr>ghostObservations =
        [0 \<mapsto> [''HV_near'' \<mapsto> [UP \<mapsto> 0, DOWN \<mapsto> 0, LEFT \<mapsto> 2, RIGHT \<mapsto> 0]],
         1 \<mapsto> Map.empty, 2 \<mapsto> Map.empty, 3 \<mapsto> Map.empty],
      totalObservations = 2,
      ghostModelConfidence = 1\<rparr>"

text \<open>A model that has seen ghost 0 move up 200 times in one situation.\<close>

definition learnedModel :: ghost_model where
  "learnedModel =
     \<lparr>ghostObservations =
        [0 \<mapsto> [''HV_near'' \<mapsto> [UP \<mapsto> 200, DOWN \<mapsto> 0, LEFT \<mapsto> 0, RIGHT \<mapsto> 0]],
         1 \<mapsto> Map.empty, 2 \<mapsto> Map.empty, 3 \<mapsto> Map.empty],
      totalObservations = 200,
      ghostModelConfidence = 100\<rparr>"

text \<open>A corridor of four floor cells in row 0, with a pellet at column 2.\<close>

definition corridorMap :: gamemap where
  "corridorMap = \<lparr>isFloorSpace = (\<lambda>c. cy c = 0 \<and> 0 \<le> cx c \<and> cx c \<le> 3),
                  getMap = [[EMPTY, EMPTY, BISCUIT, EMPTY]]\<rparr>"

definition chaser :: ghost_state where
  "chaser = \<lparr>isEdible = False, isDangerous = True\<rparr>"

definition freshTracker :: tracker where
  "freshTracker = \<lparr>moveHistory = [], positionVisitCount = Map.empty\<rparr>"

section \<open>Values of a search call\<close>

text \<open>
  A search call returns the value \<open>v\<close>: whatever the node counter is at the call, the
  call throws nothing and its value is the finite number \<open>v\<close>.
\<close>

definition returnsValue :: "(nat \<Rightarrow> error + (jsnum \<times> nat)) \<Rightarrow> real \<Rightarrow> bool" where
  "returnsValue f v = (\<forall>n. \<exists>k. f n = Inr (Num v, k))"

text \<open>
  The recursive call of the ghosts' turn of \<open>expectimax\<close> for the direction \<open>dir\<close> of
  ghost 0: the ghosts move, then \<open>expectimax\<close> runs for Pac-Man's turn one level down.
\<close>

definition expectimaxBranch ::
  "ghost_model \<Rightarrow> gamemap \<Rightarrow> pos \<Rightarrow> pos list \<Rightarrow> ghost_state list \<Rightarrow> nat \<Rightarrow> direction \<Rightarrow> nat \<Rightarrow>
     error + (jsnum \<times> nat)" where
  "expectimaxBranch st m pacmanPos ghostPositions ghostStates d dir n =
     (case expectimaxGhostPly st m pacmanPos ghostPositions dir of
        Inl e \<Rightarrow> Inl e
      | Inr newGhostPositions \<Rightarrow> expectimax st m pacmanPos newGhostPositions ghostStates d True n)"

section \<open>Laplace smoothing\<close>

text \<open>The smoothed frequency of a direction for given counts of the four directions.\<close>

definition laplace :: "(direction \<Rightarrow> nat) \<Rightarrow> direction \<Rightarrow> real" where
  "laplace c d = of_nat (c d + 1) / of_nat (c UP + c DOWN + c LEFT + c RIGHT + 4)"

section \<open>A* pathfinding: the search never leaves the start\<close>

lemma js_lt_Infinity [simp]: "js_lt Infinity x = False"
  by (cases x) simp_all

text \<open>
  The start has \<open>gScore\<close> zero, which \<open>|| Infinity\<close> reads as \<open>Infinity\<close>: the tentative score
  of every neighbour of the start is \<open>Infinity\<close>, and no neighbour is taken up.
\<close>

lemma relaxNeighbor_start:
  assumes "gScore s current = Some (Num 0)"
  shows "relaxNeighbor m goalGrid current neighbor s = s"
  using assms by (simp add: relaxNeighbor_def orInfinity_def Let_def)

lemma fold_relaxNeighbor_start:
  assumes "gScore s current = Some (Num 0)"
  shows "fold (relaxNeighbor m goalGrid current) ns s = s"
  using assms by (induction ns) (simp_all add: relaxNeighbor_start)

lemma astar_loop_start:
  "astar_loop m startGrid goalGrid
     \<lparr>openSet = [startGrid], cameFrom = Map.empty, gScore = [startGrid \<mapsto> Num 0], fScore = f\<rparr> 0
   = Some \<lparr>direction = NONE, nodesEvaluated = 1\<rparr>"
proof (cases "cx startGrid = cx goalGrid \<and> cy startGrid = cy goalGrid")
  case True
  have "reconstructPath Map.empty startGrid [startGrid] = Some [startGrid]"
    by (subst reconstructPath.simps) simp
  with True show ?thesis
    by (subst astar_loop.simps) (simp add: lowestFScore_def)
next
  case False
  let ?s0 = "\<lparr>openSet = [startGrid], cameFrom = Map.empty, gScore = [startGrid \<mapsto> Num 0], fScore = f\<rparr>"
  let ?s1 = "?s0\<lparr>openSet := filter (\<lambda>n. \<not> (cx n = cx startGrid \<and> cy n = cy startGrid)) (openSet ?s0)\<rparr>"
  have g: "gScore ?s1 startGrid = Some (Num 0)" by simp
  have f: "fold (relaxNeighbor m goalGrid startGrid) (neighborsOf startGrid) ?s1 = ?s1"
    by (rule fold_relaxNeighbor_start[OF g])
  have e: "openSet ?s1 = []" by simp
  have "astar_loop m startGrid goalGrid ?s1 1 = Some \<lparr>direction = NONE, nodesEvaluated = 1\<rparr>"
    by (subst astar_loop.simps) (simp only: e list.case)
  with False f show ?thesis
    by (subst astar_loop.simps) (auto simp add: lowestFScore_def Let_def)
qed

lemma astar_one_node: "astar m start goal = Some \<lparr>direction = NONE, nodesEvaluated = 1\<rparr>"
  unfolding astar_def Let_def by (rule astar_loop_start)

text \<open>
  The cap itself: an iteration that starts with the counter at 500 and does not find
  the goal ends the loop with a node count of 501, and a loop that starts with a counter
  of at most 500 never reports more than 501.
\<close>

lemma astar_loop_cap:
  assumes "openSet s = first # others"
      and "\<not> (cx (lowestFScore (fScore s) first others) = cx goalGrid
              \<and> cy (lowestFScore (fScore s) first others) = cy goalGrid)"
  shows "astar_loop m startGrid goalGrid s 500 = Some \<lparr>direction = NONE, nodesEvaluated = 501\<rparr>"
  using assms by (subst astar_loop.simps) (auto simp add: Let_def)

lemma astar_loop_bound:
  "astar_loop m startGrid goalGrid s nodes = Some r \<Longrightarrow> nodes \<le> 500 \<Longrightarrow> nodesEvaluated r \<le> 501"
proof (induction m startGrid goalGrid s nodes rule: astar_loop.induct)
  case (1 m startGrid goalGrid s nodes)
  show ?case
  proof (cases "openSet s")
    case Nil
    with "1.prems" show ?thesis by (subst (asm) astar_loop.simps) auto
  next
    case (Cons first others)
    let ?current = "lowestFScore (fScore s) first others"
    show ?thesis
    proof (cases "cx ?current = cx goalGrid \<and> cy ?current = cy goalGrid")
      case True
      with Cons "1.prems" show ?thesis
        by (subst (asm) astar_loop.simps) (auto simp: Let_def split: option.splits if_splits)
    next
      case False
      show ?thesis
      proof (cases "nodes + 1 > 500")
        case True
        with False Cons "1.prems" show ?thesis
          by (subst (asm) astar_loop.simps) (auto simp: Let_def split: option.splits if_splits)
      next
        case F: False
        let ?s' = "fold (relaxNeighbor m goalGrid ?current) (neighborsOf ?current)
                          (s\<lparr>openSet := filter (\<lambda>n. \<not> (cx n = cx ?current \<and> cy n = cy ?current)) (openSet s)\<rparr>)"
        from False F Cons "1.prems"(1) have "astar_loop m startGrid goalGrid ?s' (nodes + 1) = Some r"
          by (subst (asm) astar_loop.simps) (auto simp: Let_def)
        moreover have "nodes + 1 \<le> 500" using F by simp
        ultimately show ?thesis
          using "1.IH"[OF Cons refl refl False refl F] by blast
      qed
    qed
  qed
qed

text \<open>
  The reconstruction of the direction itself maps the two tunnel edges to \<open>LEFT\<close> and
  \<open>RIGHT\<close>; the search above never reaches it.
\<close>

lemma firstEdgeDirection_tunnel:
  "firstEdgeDirection (Cell 0 10) (Cell 18 10) = LEFT"
  "firstEdgeDirection (Cell 18 10) (Cell 0 10) = RIGHT"
  by (simp_all add: firstEdgeDirection_def TUNNEL_ROW_def MAP_WIDTH_def)


text \<open>
  C9. From the left tunnel mouth (column 0 of row 10) to the right one (column 18) the
  first edge of the shortest path crosses the tunnel and the direction is \<open>LEFT\<close>. The
  code returns \<open>NONE\<close> for this search, although every cell of the row is floor and the
  reconstruction would answer \<open>LEFT\<close> for this edge.
\<close>

theorem astar_tunnel_scenario:
  "toGrid (Pos 0 100) = Cell 0 10 \<and> toGrid (Pos 180 100) = Cell 18 10
   \<and> isFloorSpace tunnelMap (Cell 0 10) \<and> isFloorSpace tunnelMap (Cell 18 10)
   \<and> firstEdgeDirection (Cell 0 10) (Cell 18 10) = LEFT
   \<and> astar tunnelMap (Pos 0 100) (Pos 180 100) = Some \<lparr>direction = NONE, nodesEvaluated = 1\<rparr>"
  by (simp add: astar_one_node firstEdgeDirection_tunnel toGrid_def Math_round_def tunnelMap_def)

section \<open>Anti-oscillation penalty: older entries weigh more\<close>

lemma entryPenalty_older_larger:
  assumes "i < j" "j < n"
  shows "entryPenalty n j < entryPenalty n i"
  using assms unfolding entryPenalty_def by (simp add: divide_strict_right_mono)

text \<open>
  C1. A history entry that matches the candidate cell adds \<open>50 * (1 + f)\<close>, with \<open>f\<close>
  growing from the oldest entry to the most recent one, so that the more recent of two
  matching entries adds more. In the code \<open>f\<close> is 1 for the oldest entry and falls
  towards the most recent one: after the positions \<open>1,1\<close> and \<open>2,1\<close> have been recorded
  in this order, the move back to \<open>1,1\<close>, the older entry, costs 100; recorded in the
  other order, the move to \<open>1,1\<close>, now the most recent entry, costs 75.
\<close>

theorem getOscillationPenalty_recent_entry_cheaper:
  "moveHistory (recordPosition (recordPosition freshTracker (Pos 10 10)) (Pos 20 10))
     = [Cell 1 1, Cell 2 1]
   \<and> getOscillationPenalty (recordPosition (recordPosition freshTracker (Pos 10 10)) (Pos 20 10))
       (Pos 20 10) LEFT None = Inr 100
   \<and> moveHistory (recordPosition (recordPosition freshTracker (Pos 20 10)) (Pos 10 10))
     = [Cell 2 1, Cell 1 1]
   \<and> getOscillationPenalty (recordPosition (recordPosition freshTracker (Pos 20 10)) (Pos 10 10))
       (Pos 20 10) LEFT None = Inr 75"
  by (simp add: getOscillationPenalty_def recordPosition_def freshTracker_def HISTORY_LENGTH_def
        gridDeltas_def entryPenalty_def orZero_def upt_rec Math_round_def Let_def)

section \<open>Static evaluator: a ghost that is neither edible nor dangerous\<close>

text \<open>
  C6. A ghost whose state has \<open>isEdible\<close> and \<open>isDangerous\<close> both false adds no penalty
  of a dangerous ghost to the score. The code sorts every ghost that is not edible
  with the dangerous ones: such a ghost one cell from Pac-Man lowers the score of the
  empty world from 0 to -2000.
\<close>

theorem evaluateState_neither_is_penalised:
  "evaluateState emptyMap (Pos 10 10) [Pos 20 10] [\<lparr>isEdible = False, isDangerous = False\<rparr>]
     = Inr (- 2000)
   \<and> evaluateState emptyMap (Pos 10 10) [] [] = Inr 0"
  by (simp add: evaluateState_def emptyMap_def toGrid_def manhattanDistance_def tileAt_def
        nearestGhostDistance_def js_gt_def findNearestPellet_def mapCells_def Math_round_def)

section \<open>Ghost model: probabilities\<close>


lemma probs_unseen:
  assumes "ghostObservations st i = Some tbl" "tbl (getSituation g p) = None"
  shows "getGhostMoveProbabilities st i g p = Inr ([UP \<mapsto> 1/4, DOWN \<mapsto> 1/4, LEFT \<mapsto> 1/4, RIGHT \<mapsto> 1/4], st)"
  using assms by (simp add: getGhostMoveProbabilities_def directions_def)

lemma probs_seen:
  assumes "ghostObservations st i = Some tbl" "tbl (getSituation g p) = Some obs"
  shows "getGhostMoveProbabilities st i g p =
     Inr ([UP \<mapsto> laplace (\<lambda>d. orZero (obs d)) UP, DOWN \<mapsto> laplace (\<lambda>d. orZero (obs d)) DOWN,
           LEFT \<mapsto> laplace (\<lambda>d. orZero (obs d)) LEFT, RIGHT \<mapsto> laplace (\<lambda>d. orZero (obs d)) RIGHT], st)"
  using assms by (simp add: getGhostMoveProbabilities_def directions_def laplace_def SMOOTHING_def add_ac)

lemma probs_missing:
  assumes "ghostObservations st i = None"
  shows "getGhostMoveProbabilities st i g p = Inl TypeError"
  using assms by (simp add: getGhostMoveProbabilities_def)

lemma laplace_sum: "laplace c UP + laplace c DOWN + laplace c LEFT + laplace c RIGHT = 1"
proof -
  have "laplace c UP + laplace c DOWN + laplace c LEFT + laplace c RIGHT
      = of_nat (c UP + c DOWN + c LEFT + c RIGHT + 4) / of_nat (c UP + c DOWN + c LEFT + c RIGHT + 4)"
    unfolding laplace_def by (simp add: add_divide_distrib[symmetric] del: of_nat_add add: of_nat_add[symmetric])
  thus ?thesis by simp
qed

lemma laplace_pos: "0 < laplace c d"
  unfolding laplace_def by (simp add: divide_pos_pos del: of_nat_add)

lemma laplace_lt1: "d \<noteq> NONE \<Longrightarrow> laplace c d < 1"
  unfolding laplace_def by (cases d) (simp_all del: of_nat_add of_nat_Suc)

lemma laplace_zero: "c UP = 0 \<Longrightarrow> c DOWN = 0 \<Longrightarrow> c LEFT = 0 \<Longrightarrow> c RIGHT = 0 \<Longrightarrow> d \<noteq> NONE \<Longrightarrow> laplace c d = 1 / 4"
  unfolding laplace_def by (cases d) simp_all



text \<open>
  In exact arithmetic the four quotients sum to one, each lies strictly between zero
  and one, and they are 1/4 each for zero counts.
\<close>

lemma getGhostMoveProbabilities_exact_distribution:
  assumes "ghostObservations st ghostIdx = Some tbl"
  shows "\<exists>probs. getGhostMoveProbabilities st ghostIdx ghostPos pacmanPos = Inr (probs, st)
           \<and> dom probs = {UP, DOWN, LEFT, RIGHT}
           \<and> (\<Sum>d\<leftarrow>directions. the (probs d)) = 1
           \<and> (\<forall>d\<in>dom probs. 0 < the (probs d) \<and> the (probs d) < 1)
           \<and> ((\<forall>d. readCount st ghostIdx (getSituation ghostPos pacmanPos) d = 0) \<longrightarrow>
                (\<forall>d\<in>dom probs. probs d = Some (1 / 4)))"
proof (cases "tbl (getSituation ghostPos pacmanPos)")
  case None
  show ?thesis
    unfolding probs_unseen[OF assms None]
    by (intro exI[of _ "[UP \<mapsto> 1/4, DOWN \<mapsto> 1/4, LEFT \<mapsto> 1/4, RIGHT \<mapsto> 1/4]"])
       (auto simp: directions_def)
next
  case (Some obs)
  let ?c = "\<lambda>d. orZero (obs d)"
  let ?p = "[UP \<mapsto> laplace ?c UP, DOWN \<mapsto> laplace ?c DOWN, LEFT \<mapsto> laplace ?c LEFT, RIGHT \<mapsto> laplace ?c RIGHT]"
  have rc: "readCount st ghostIdx (getSituation ghostPos pacmanPos) d = ?c d" for d
    using assms Some by (simp add: readCount_def)
  have 1: "dom ?p = {UP, DOWN, LEFT, RIGHT}" by auto
  have 2: "(\<Sum>d\<leftarrow>directions. the (?p d)) = 1"
    using laplace_sum[of ?c] by (simp add: directions_def)
  have 3: "\<forall>d\<in>dom ?p. 0 < the (?p d) \<and> the (?p d) < 1"
    by (auto simp: laplace_pos laplace_lt1)
  have 4: "(\<forall>d. readCount st ghostIdx (getSituation ghostPos pacmanPos) d = 0) \<longrightarrow>
                (\<forall>d\<in>dom ?p. ?p d = Some (1 / 4))"
    unfolding rc by (auto simp: laplace_zero)
  show ?thesis
    unfolding probs_seen[OF assms Some] using 1 2 3 4 by blast
qed

section \<open>Ghost model: probabilities as doubles\<close>

text \<open>
  The rounded quotient: \<open>bitLength\<close> brackets its argument between two powers of two,
  rounding to the nearest integer is off by at most a half, and so the rounded quotient
  of two positive integers is positive and within a relative error of \<open>2 ^ - 53\<close> of the
  exact one.
\<close>

lemma bitLength_bounds: "0 < n \<Longrightarrow> 2 ^ bitLength n \<le> 2 * n \<and> n < 2 ^ bitLength n"
proof (induction n rule: bitLength.induct)
  case (1 n)
  show ?case
  proof (cases "n div 2 = 0")
    case True
    with "1.prems" have "n = 1" by (simp add: div_eq_0_iff) 
    thus ?thesis by (simp add: bitLength.simps)
  next
    case False
    hence pos: "0 < n div 2" by simp
    from "1.IH"[OF _ pos] "1.prems" have ih: "2 ^ bitLength (n div 2) \<le> 2 * (n div 2)" "n div 2 < 2 ^ bitLength (n div 2)"
      by simp_all
    have b: "bitLength n = Suc (bitLength (n div 2))" using "1.prems" by (subst bitLength.simps) simp
    have "2 * (n div 2) \<le> n" by simp
    moreover have "n < 2 * (n div 2) + 2" by presburger
    ultimately show ?thesis unfolding b using ih by simp
  qed
qed

lemma roundHalfEven_error: "\<bar>of_int (roundHalfEven x) - x\<bar> \<le> 1 / 2"
proof -
  define f where "f = \<lfloor>x\<rfloor>"
  have f: "of_int f \<le> x" "x < of_int f + 1" unfolding f_def by linarith+
  consider "x - of_int f < 1 / 2" | "1 / 2 < x - of_int f" | "x - of_int f = 1 / 2" by linarith
  thus ?thesis
  proof cases
    case 1
    hence "roundHalfEven x = f" by (simp add: roundHalfEven_def f_def)
    with 1 f show ?thesis by simp
  next
    case 2
    hence "roundHalfEven x = f + 1" by (simp add: roundHalfEven_def f_def)
    with 2 f show ?thesis by simp
  next
    case 3
    hence "roundHalfEven x = f \<or> roundHalfEven x = f + 1" by (simp add: roundHalfEven_def f_def Let_def)
    with 3 show ?thesis by auto
  qed
qed

lemma rounded_quotient_error:
  fixes x scale :: real
  assumes "0 < scale" "2 ^ 52 \<le> x * scale"
  shows "\<bar>of_int (roundHalfEven (x * scale)) / scale - x\<bar> \<le> x / 2 ^ 53"
proof -
  have "of_int (roundHalfEven (x * scale)) / scale - x
        = (of_int (roundHalfEven (x * scale)) - x * scale) / scale"
    using assms(1) by (simp add: field_simps)
  hence "\<bar>of_int (roundHalfEven (x * scale)) / scale - x\<bar>
        = \<bar>of_int (roundHalfEven (x * scale)) - x * scale\<bar> / scale"
    using assms(1) by simp
  also have "\<dots> \<le> (1 / 2) / scale"
    by (rule divide_right_mono[OF roundHalfEven_error]) (use assms(1) in simp)
  also have "\<dots> \<le> x / 2 ^ 53"
  proof -
    have "1 \<le> x * scale / 2 ^ 52" using assms(2) by simp
    hence "1 / scale \<le> x / 2 ^ 52" using assms(1) by (simp add: field_simps)
    thus ?thesis by simp
  qed
  finally show ?thesis .
qed

lemma rounded_quotient_pos:
  fixes x scale :: real
  assumes "0 < scale" "2 ^ 52 \<le> x * scale"
  shows "0 < of_int (roundHalfEven (x * scale)) / scale"
proof -
  have "x * scale - 1 / 2 \<le> of_int (roundHalfEven (x * scale))"
    using roundHalfEven_error[of "x * scale"] by (simp add: abs_if split: if_splits)
  with assms(2) have "0 < (of_int (roundHalfEven (x * scale)) :: real)" by simp
  with assms(1) show ?thesis by simp
qed

lemma doubleDiv_scale:
  assumes "0 < n" "0 < d"
  shows "\<exists>scale. 0 < scale \<and> 2 ^ 52 \<le> real n / real d * scale
           \<and> doubleDiv n d = of_int (roundHalfEven (real n / real d * scale)) / scale"
proof -
  let ?bn = "bitLength n" and ?bd = "bitLength d"
  from bitLength_bounds[OF assms(1)] have n: "(2::real) ^ ?bn \<le> 2 * real n"
    by (metis of_nat_le_iff of_nat_mult of_nat_numeral of_nat_power)
  from bitLength_bounds[OF assms(2)] have d: "real d < 2 ^ ?bd"
    by (metis of_nat_less_iff of_nat_numeral of_nat_power)
  have dpos: "0 < real d" using assms(2) by simp
  show ?thesis
  proof (cases "2 ^ 53 * (real d * 2 ^ ?bn) \<le> real n * 2 ^ (53 + ?bd)")
    case True
    let ?scale = "(2::real) ^ (52 + ?bd) / 2 ^ ?bn"
    have "2 ^ 52 * (real d * 2 ^ ?bn) \<le> real n * 2 ^ (52 + ?bd)"
      using True by (simp add: power_add)
    hence "2 ^ 52 \<le> real n * 2 ^ (52 + ?bd) / (real d * 2 ^ ?bn)"
      using dpos by (simp add: pos_le_divide_eq)
    hence "2 ^ 52 \<le> real n / real d * ?scale" by simp
    moreover have "doubleDiv n d = of_int (roundHalfEven (real n / real d * ?scale)) / ?scale"
      using True unfolding doubleDiv_def Let_def by simp
    moreover have "0 < ?scale" by simp
    ultimately show ?thesis by blast
  next
    case False
    let ?scale = "(2::real) ^ (53 + ?bd) / 2 ^ ?bn"
    have "2 ^ 52 * (real d * 2 ^ ?bn) \<le> 2 ^ 52 * (2 ^ ?bd * (2 * real n))"
      using n d dpos by (intro mult_left_mono mult_mono) simp_all
    also have "\<dots> = real n * 2 ^ (53 + ?bd)" by (simp add: power_add)
    finally have "2 ^ 52 \<le> real n * 2 ^ (53 + ?bd) / (real d * 2 ^ ?bn)"
      using dpos by (simp add: pos_le_divide_eq)
    hence "2 ^ 52 \<le> real n / real d * ?scale" by simp
    moreover have "doubleDiv n d = of_int (roundHalfEven (real n / real d * ?scale)) / ?scale"
      using False unfolding doubleDiv_def Let_def by simp
    moreover have "0 < ?scale" by simp
    ultimately show ?thesis by blast
  qed
qed

lemma doubleDiv_error:
  assumes "0 < n" "0 < d"
  shows "\<bar>doubleDiv n d - real n / real d\<bar> \<le> real n / real d / 2 ^ 53"
proof -
  from doubleDiv_scale[OF assms] obtain scale where
    "0 < scale" "2 ^ 52 \<le> real n / real d * scale"
    "doubleDiv n d = of_int (roundHalfEven (real n / real d * scale)) / scale" by blast
  thus ?thesis using rounded_quotient_error[of scale "real n / real d"] by simp
qed

lemma doubleDiv_pos:
  assumes "0 < n" "0 < d"
  shows "0 < doubleDiv n d"
proof -
  from doubleDiv_scale[OF assms] obtain scale where
    "0 < scale" "2 ^ 52 \<le> real n / real d * scale"
    "doubleDiv n d = of_int (roundHalfEven (real n / real d * scale)) / scale" by blast
  thus ?thesis using rounded_quotient_pos[of scale "real n / real d"] by simp
qed

text \<open>The quotients of the examples.\<close>

lemma bitLength_values:
  "bitLength 1 = 1" "bitLength (Suc 0) = 1" "bitLength 3 = 2" "bitLength 4 = 3" "bitLength 6 = 3"
  by (simp_all add: bitLength.simps)

lemma doubleDiv_1_4: "doubleDiv 1 4 = 1 / 4"
  by (simp add: doubleDiv_def bitLength_values roundHalfEven_def)

lemma doubleDiv_1_6: "doubleDiv 1 6 = 6004799503160661 / 36028797018963968"
  by (simp add: doubleDiv_def bitLength_values roundHalfEven_def)

lemma doubleDiv_3_6: "doubleDiv 3 6 = 1 / 2"
  by (simp add: doubleDiv_def bitLength_values roundHalfEven_def)

text \<open>The three branches of the query.\<close>

lemma probsDouble_unseen:
  assumes "ghostObservations st i = Some tbl" "tbl (getSituation g p) = None"
  shows "getGhostMoveProbabilitiesDouble st i g p = Inr ([UP \<mapsto> 1/4, DOWN \<mapsto> 1/4, LEFT \<mapsto> 1/4, RIGHT \<mapsto> 1/4], st)"
  using assms by (simp add: getGhostMoveProbabilitiesDouble_def directions_def)

lemma probsDouble_seen:
  assumes "ghostObservations st i = Some tbl" "tbl (getSituation g p) = Some obs"
  shows "getGhostMoveProbabilitiesDouble st i g p =
     Inr ([UP \<mapsto> doubleDiv (orZero (obs UP) + 1) (orZero (obs UP) + orZero (obs DOWN) + orZero (obs LEFT) + orZero (obs RIGHT) + 4),
           DOWN \<mapsto> doubleDiv (orZero (obs DOWN) + 1) (orZero (obs UP) + orZero (obs DOWN) + orZero (obs LEFT) + orZero (obs RIGHT) + 4),
           LEFT \<mapsto> doubleDiv (orZero (obs LEFT) + 1) (orZero (obs UP) + orZero (obs DOWN) + orZero (obs LEFT) + orZero (obs RIGHT) + 4),
           RIGHT \<mapsto> doubleDiv (orZero (obs RIGHT) + 1) (orZero (obs UP) + orZero (obs DOWN) + orZero (obs LEFT) + orZero (obs RIGHT) + 4)], st)"
  using assms by (simp add: getGhostMoveProbabilitiesDouble_def directions_def SMOOTHING_def add_ac Let_def)

lemma probsDouble_missing:
  assumes "ghostObservations st i = None"
  shows "getGhostMoveProbabilitiesDouble st i g p = Inl TypeError"
  using assms by (simp add: getGhostMoveProbabilitiesDouble_def)

text \<open>
  A rounded probability stays below one while the total is at most \<open>2 ^ 53\<close>, and four
  rounded probabilities whose numerators add up to the total sum to one within
  \<open>2 ^ - 53\<close>.
\<close>

lemma doubleDiv_lt_1:
  assumes "0 < n" "n + 3 \<le> d" "d \<le> 2 ^ 53"
  shows "doubleDiv n d < 1"
proof -
  have dpos: "0 < d" using assms by simp
  have d53: "real d \<le> 2 ^ 53"
    using assms(3) by (metis of_nat_le_iff of_nat_numeral of_nat_power)
  have x1: "real n / real d \<le> 1 - 3 / real d"
  proof -
    have "real n \<le> real d - 3" using assms(2) by linarith
    hence "real n / real d \<le> (real d - 3) / real d" using dpos by (simp add: divide_right_mono)
    also have "\<dots> = 1 - 3 / real d" using dpos by (simp add: field_simps)
    finally show ?thesis .
  qed
  have "3 / 2 ^ 53 \<le> 3 / real d" using d53 dpos by (intro divide_left_mono) simp_all
  hence x2: "real n / real d \<le> 1 - 3 / 2 ^ 53" using x1 by linarith
  have "(0::real) \<le> 3 / 2 ^ 53" by simp
  with x2 have xle: "real n / real d \<le> 1" by linarith
  have "real n / real d / 2 ^ 53 \<le> 1 / 2 ^ 53"
    by (rule divide_right_mono[OF xle]) simp
  hence "doubleDiv n d \<le> (1 - 3 / 2 ^ 53) + 1 / 2 ^ 53"
    using doubleDiv_error[OF assms(1) dpos] x2 by linarith
  also have "\<dots> < 1" by simp
  finally show ?thesis .
qed

lemma doubleDiv_sum:
  assumes "0 < a" "0 < b" "0 < c" "0 < e" "a + b + c + e = d"
  shows "\<bar>doubleDiv a d + doubleDiv b d + doubleDiv c d + doubleDiv e d - 1\<bar> \<le> 1 / 2 ^ 53"
proof -
  have dpos: "0 < d" using assms by simp
  have one: "real a / real d + real b / real d + real c / real d + real e / real d = 1"
  proof -
    have "real a + real b + real c + real e = real d" using assms(5) by (simp flip: of_nat_add)
    thus ?thesis using dpos by (simp add: field_simps)
  qed
  note ea = doubleDiv_error[OF assms(1) dpos]
  note eb = doubleDiv_error[OF assms(2) dpos]
  note ec = doubleDiv_error[OF assms(3) dpos]
  note ee = doubleDiv_error[OF assms(4) dpos]
  have "\<bar>doubleDiv a d + doubleDiv b d + doubleDiv c d + doubleDiv e d - 1\<bar>
        = \<bar>(doubleDiv a d - real a / real d) + (doubleDiv b d - real b / real d)
           + (doubleDiv c d - real c / real d) + (doubleDiv e d - real e / real d)\<bar>"
    using one by simp
  also have "\<dots> \<le> real a / real d / 2 ^ 53 + real b / real d / 2 ^ 53
                  + real c / real d / 2 ^ 53 + real e / real d / 2 ^ 53"
    using ea eb ec ee by linarith
  also have "\<dots> = (real a / real d + real b / real d + real c / real d + real e / real d) / 2 ^ 53"
    by (simp add: add_divide_distrib)
  also have "\<dots> = 1 / 2 ^ 53" unfolding one by simp
  finally show ?thesis .
qed

text \<open>Two recordings of \<open>LEFT\<close> for ghost 0 at the start, and the query after them.\<close>

lemma getSituation_beside: "getSituation (Pos 10 10) (Pos 20 10) = ''HV_near''"
  by (simp add: getSituation_def Math_round_def)

lemma recordGhostMove_oneLeft:
  "recordGhostMove initialGhostModel 0 (Pos 10 10) (Pos 20 10) LEFT = Inr oneLeftModel"
  by (simp add: recordGhostMove_def getSituation_beside initialGhostModel_def oneLeftModel_def
        Math_round_def fun_upd_twist)

lemma recordGhostMove_twoLefts:
  "recordGhostMove oneLeftModel 0 (Pos 10 10) (Pos 20 10) LEFT = Inr twoLeftsModel"
  by (simp add: recordGhostMove_def getSituation_beside oneLeftModel_def twoLeftsModel_def
        Math_round_def fun_upd_twist numeral_2_eq_2)

lemma twoLeftsModel_probabilities:
  "getGhostMoveProbabilitiesDouble twoLeftsModel 0 (Pos 10 10) (Pos 20 10)
     = Inr ([UP \<mapsto> 6004799503160661 / 36028797018963968,
             DOWN \<mapsto> 6004799503160661 / 36028797018963968,
             LEFT \<mapsto> 1 / 2,
             RIGHT \<mapsto> 6004799503160661 / 36028797018963968], twoLeftsModel)"
proof -
  have t: "ghostObservations twoLeftsModel 0
             = Some [''HV_near'' \<mapsto> [UP \<mapsto> 0, DOWN \<mapsto> 0, LEFT \<mapsto> 2, RIGHT \<mapsto> 0]]"
    by (simp add: twoLeftsModel_def)
  have b: "[''HV_near'' \<mapsto> [UP \<mapsto> 0, DOWN \<mapsto> 0, LEFT \<mapsto> 2, RIGHT \<mapsto> (0::nat)]] (getSituation (Pos 10 10) (Pos 20 10))
             = Some [UP \<mapsto> 0, DOWN \<mapsto> 0, LEFT \<mapsto> 2, RIGHT \<mapsto> 0]"
    by (simp add: getSituation_beside)
  show ?thesis
    unfolding probsDouble_seen[OF t b]
    by (simp add: orZero_def doubleDiv_1_6 [unfolded One_nat_def] doubleDiv_3_6)
qed

text \<open>
  C3, as stated: the four probabilities sum to exactly 1, and the query answers for
  every ghost index, also one never seen. Neither holds. The model holds a table for
  each of the indices 0 to 3 only, and the query for index 4 throws a TypeError. And
  after two recordings of \<open>LEFT\<close> in one situation the query returns 1/2 for \<open>LEFT\<close> and the
  double nearest to 1/6 for each other direction: the four sum to \<open>1 - 2 ^ - 55\<close>.
\<close>

theorem getGhostMoveProbabilitiesDouble_not_exact:
  "getGhostMoveProbabilitiesDouble initialGhostModel 4 (Pos 10 10) (Pos 20 10) = Inl TypeError
   \<and> recordGhostMove initialGhostModel 0 (Pos 10 10) (Pos 20 10) LEFT = Inr oneLeftModel
   \<and> recordGhostMove oneLeftModel 0 (Pos 10 10) (Pos 20 10) LEFT = Inr twoLeftsModel
   \<and> getGhostMoveProbabilitiesDouble twoLeftsModel 0 (Pos 10 10) (Pos 20 10)
       = Inr ([UP \<mapsto> 6004799503160661 / 36028797018963968,
               DOWN \<mapsto> 6004799503160661 / 36028797018963968,
               LEFT \<mapsto> 1 / 2,
               RIGHT \<mapsto> 6004799503160661 / 36028797018963968], twoLeftsModel)
   \<and> 6004799503160661 / 36028797018963968 + 6004799503160661 / 36028797018963968 + 1 / 2
       + 6004799503160661 / 36028797018963968 = (36028797018963967 / 36028797018963968 :: real)
   \<and> 36028797018963967 / 36028797018963968 < (1 :: real)"
proof -
  have "getGhostMoveProbabilitiesDouble initialGhostModel 4 (Pos 10 10) (Pos 20 10) = Inl TypeError"
    by (simp add: getGhostMoveProbabilitiesDouble_def initialGhostModel_def)
  moreover have "6004799503160661 / 36028797018963968 + 6004799503160661 / 36028797018963968 + 1 / 2
       + 6004799503160661 / 36028797018963968 = (36028797018963967 / 36028797018963968 :: real)"
    by simp
  moreover have "36028797018963967 / 36028797018963968 < (1 :: real)"
    by simp
  ultimately show ?thesis
    using recordGhostMove_oneLeft recordGhostMove_twoLefts twoLeftsModel_probabilities
    by (intro conjI)
qed

text \<open>
  C3, amended: for a ghost index without a table the query throws a TypeError. For
  every ghost index that has a table, every pair of positions and all counts whose
  total with the smoothing is at most \<open>2 ^ 53\<close>, the query returns a probability for each
  of the four directions and for nothing else; the four sum to 1 within \<open>2 ^ - 53\<close>, each
  lies strictly between 0 and 1, and they are 1/4 each when the situation has no
  observation (no bucket, or a bucket of zero counts). A situation never seen is no
  failure.
\<close>

theorem getGhostMoveProbabilitiesDouble_distribution:
  "(ghostObservations st ghostIdx = None \<longrightarrow>
      getGhostMoveProbabilitiesDouble st ghostIdx ghostPos pacmanPos = Inl TypeError)
   \<and> (\<forall>tbl. ghostObservations st ghostIdx = Some tbl \<longrightarrow>
        (\<Sum>d\<leftarrow>directions. readCount st ghostIdx (getSituation ghostPos pacmanPos) d) + 4 \<le> 2 ^ 53 \<longrightarrow>
        (\<exists>probs. getGhostMoveProbabilitiesDouble st ghostIdx ghostPos pacmanPos = Inr (probs, st)
           \<and> dom probs = {UP, DOWN, LEFT, RIGHT}
           \<and> \<bar>(\<Sum>d\<leftarrow>directions. the (probs d)) - 1\<bar> \<le> 1 / 2 ^ 53
           \<and> (\<forall>d\<in>dom probs. 0 < the (probs d) \<and> the (probs d) < 1)
           \<and> ((\<forall>d. readCount st ghostIdx (getSituation ghostPos pacmanPos) d = 0) \<longrightarrow>
                (\<forall>d\<in>dom probs. probs d = Some (1 / 4)))))"
proof (intro conjI allI impI)
  assume "ghostObservations st ghostIdx = None"
  thus "getGhostMoveProbabilitiesDouble st ghostIdx ghostPos pacmanPos = Inl TypeError"
    by (rule probsDouble_missing)
next
  fix tbl
  assume tbl: "ghostObservations st ghostIdx = Some tbl"
     and bound: "(\<Sum>d\<leftarrow>directions. readCount st ghostIdx (getSituation ghostPos pacmanPos) d) + 4 \<le> 2 ^ 53"
  show "\<exists>probs. getGhostMoveProbabilitiesDouble st ghostIdx ghostPos pacmanPos = Inr (probs, st)
           \<and> dom probs = {UP, DOWN, LEFT, RIGHT}
           \<and> \<bar>(\<Sum>d\<leftarrow>directions. the (probs d)) - 1\<bar> \<le> 1 / 2 ^ 53
           \<and> (\<forall>d\<in>dom probs. 0 < the (probs d) \<and> the (probs d) < 1)
           \<and> ((\<forall>d. readCount st ghostIdx (getSituation ghostPos pacmanPos) d = 0) \<longrightarrow>
                (\<forall>d\<in>dom probs. probs d = Some (1 / 4)))"
  proof (cases "tbl (getSituation ghostPos pacmanPos)")
    case None
    show ?thesis
      unfolding probsDouble_unseen[OF tbl None]
      by (intro exI[of _ "[UP \<mapsto> 1/4, DOWN \<mapsto> 1/4, LEFT \<mapsto> 1/4, RIGHT \<mapsto> 1/4]"])
         (auto simp: directions_def)
  next
    case (Some obs)
    define u where "u = orZero (obs UP) + 1"
    define w where "w = orZero (obs DOWN) + 1"
    define l where "l = orZero (obs LEFT) + 1"
    define r where "r = orZero (obs RIGHT) + 1"
    define T where "T = orZero (obs UP) + orZero (obs DOWN) + orZero (obs LEFT) + orZero (obs RIGHT) + 4"
    let ?p = "[UP \<mapsto> doubleDiv u T, DOWN \<mapsto> doubleDiv w T, LEFT \<mapsto> doubleDiv l T, RIGHT \<mapsto> doubleDiv r T]"
    have rc: "readCount st ghostIdx (getSituation ghostPos pacmanPos) d = orZero (obs d)" for d
      using tbl Some by (simp add: readCount_def)
    have q: "getGhostMoveProbabilitiesDouble st ghostIdx ghostPos pacmanPos = Inr (?p, st)"
      unfolding probsDouble_seen[OF tbl Some] u_def w_def l_def r_def T_def by simp
    have pos: "0 < u" "0 < w" "0 < l" "0 < r" by (simp_all add: u_def w_def l_def r_def)
    have tot: "u + w + l + r = T" by (simp add: u_def w_def l_def r_def T_def)
    have T53: "T \<le> 2 ^ 53" using bound unfolding rc by (simp add: directions_def T_def)
    have Tpos: "0 < T" by (simp add: T_def)
    have 1: "dom ?p = {UP, DOWN, LEFT, RIGHT}" by auto
    have 2: "\<bar>(\<Sum>d\<leftarrow>directions. the (?p d)) - 1\<bar> \<le> 1 / 2 ^ 53"
      using doubleDiv_sum[OF pos tot] by (simp add: directions_def add.assoc)
    have lt: "doubleDiv u T < 1" "doubleDiv w T < 1" "doubleDiv l T < 1" "doubleDiv r T < 1"
      using T53 by (auto intro!: doubleDiv_lt_1 simp: u_def w_def l_def r_def T_def)
    have gt: "0 < doubleDiv u T" "0 < doubleDiv w T" "0 < doubleDiv l T" "0 < doubleDiv r T"
      using pos Tpos by (simp_all add: doubleDiv_pos)
    have 3: "\<forall>d\<in>dom ?p. 0 < the (?p d) \<and> the (?p d) < 1"
      using lt gt by auto
    have 4: "(\<forall>d. readCount st ghostIdx (getSituation ghostPos pacmanPos) d = 0) \<longrightarrow>
                (\<forall>d\<in>dom ?p. ?p d = Some (1 / 4))"
    proof
      assume z: "\<forall>d. readCount st ghostIdx (getSituation ghostPos pacmanPos) d = 0"
      hence "u = 1" "w = 1" "l = 1" "r = 1" "T = 4"
        unfolding rc by (simp_all add: u_def w_def l_def r_def T_def)
      thus "\<forall>d\<in>dom ?p. ?p d = Some (1 / 4)" by (auto simp: doubleDiv_1_4 [unfolded One_nat_def])
    qed
    show ?thesis unfolding q using 1 2 3 4 by blast
  qed
qed

theorem getGhostMoveProbabilitiesDouble_distribution_witness:
  "ghostObservations initialGhostModel 4 = None
   \<and> getGhostMoveProbabilitiesDouble initialGhostModel 4 (Pos 10 10) (Pos 20 10) = Inl TypeError
   \<and> ghostObservations twoLeftsModel 0 \<noteq> None
   \<and> (\<Sum>d\<leftarrow>directions. readCount twoLeftsModel 0 (getSituation (Pos 10 10) (Pos 20 10)) d) + 4 = 6
   \<and> (\<exists>probs. getGhostMoveProbabilitiesDouble twoLeftsModel 0 (Pos 10 10) (Pos 20 10) = Inr (probs, twoLeftsModel)
        \<and> dom probs = {UP, DOWN, LEFT, RIGHT}
        \<and> \<bar>(\<Sum>d\<leftarrow>directions. the (probs d)) - 1\<bar> \<le> 1 / 2 ^ 53
        \<and> (\<forall>d\<in>dom probs. 0 < the (probs d) \<and> the (probs d) < 1))
   \<and> ghostObservations initialGhostModel 0 \<noteq> None
   \<and> (\<forall>d. readCount initialGhostModel 0 (getSituation (Pos 10 10) (Pos 20 10)) d = 0)
   \<and> (\<exists>probs. getGhostMoveProbabilitiesDouble initialGhostModel 0 (Pos 10 10) (Pos 20 10) = Inr (probs, initialGhostModel)
        \<and> (\<forall>d\<in>dom probs. probs d = Some (1 / 4)))"
proof -
  have n: "ghostObservations initialGhostModel 4 = None"
    by (simp add: initialGhostModel_def)
  have t: "ghostObservations twoLeftsModel 0
             = Some [''HV_near'' \<mapsto> [UP \<mapsto> 0, DOWN \<mapsto> 0, LEFT \<mapsto> 2, RIGHT \<mapsto> 0]]"
    by (simp add: twoLeftsModel_def)
  have c: "(\<Sum>d\<leftarrow>directions. readCount twoLeftsModel 0 (getSituation (Pos 10 10) (Pos 20 10)) d) + 4 = 6"
    by (simp add: readCount_def t getSituation_beside directions_def orZero_def)
  have i: "ghostObservations initialGhostModel 0 = Some Map.empty"
    by (simp add: initialGhostModel_def)
  have z: "\<forall>d. readCount initialGhostModel 0 (getSituation (Pos 10 10) (Pos 20 10)) d = 0"
    by (simp add: readCount_def i)
  have zb: "(\<Sum>d\<leftarrow>directions. readCount initialGhostModel 0 (getSituation (Pos 10 10) (Pos 20 10)) d) + 4 \<le> 2 ^ 53"
    by (simp add: z directions_def)
  have cb: "(\<Sum>d\<leftarrow>directions. readCount twoLeftsModel 0 (getSituation (Pos 10 10) (Pos 20 10)) d) + 4 \<le> 2 ^ 53"
    unfolding c by simp
  note a = getGhostMoveProbabilitiesDouble_distribution[of initialGhostModel 4 "Pos 10 10" "Pos 20 10"]
  note b = getGhostMoveProbabilitiesDouble_distribution[of twoLeftsModel 0 "Pos 10 10" "Pos 20 10"]
  note e = getGhostMoveProbabilitiesDouble_distribution[of initialGhostModel 0 "Pos 10 10" "Pos 20 10"]
  from a n have 1: "getGhostMoveProbabilitiesDouble initialGhostModel 4 (Pos 10 10) (Pos 20 10) = Inl TypeError"
    by blast
  from b t cb have 2: "\<exists>probs. getGhostMoveProbabilitiesDouble twoLeftsModel 0 (Pos 10 10) (Pos 20 10) = Inr (probs, twoLeftsModel)
        \<and> dom probs = {UP, DOWN, LEFT, RIGHT}
        \<and> \<bar>(\<Sum>d\<leftarrow>directions. the (probs d)) - 1\<bar> \<le> 1 / 2 ^ 53
        \<and> (\<forall>d\<in>dom probs. 0 < the (probs d) \<and> the (probs d) < 1)"
    by blast
  from e i zb z have 3: "\<exists>probs. getGhostMoveProbabilitiesDouble initialGhostModel 0 (Pos 10 10) (Pos 20 10) = Inr (probs, initialGhostModel)
        \<and> (\<forall>d\<in>dom probs. probs d = Some (1 / 4))"
    by blast
  from n 1 t c 2 i z 3 show ?thesis by simp
qed

section \<open>Ghost model: the query leaves the model as it is\<close>

text \<open>
  C10. The query leaves the model as it is: whenever it returns, the state after the
  call is the state before it, table and counter alike. For a situation without a
  bucket it returns the uniform distribution and creates no bucket.
\<close>

theorem getGhostMoveProbabilities_pure:
  "(\<forall>probs st'. getGhostMoveProbabilities st ghostIdx ghostPos pacmanPos = Inr (probs, st') \<longrightarrow> st' = st)
   \<and> (\<forall>tbl. ghostObservations st ghostIdx = Some tbl \<longrightarrow> tbl (getSituation ghostPos pacmanPos) = None \<longrightarrow>
         getGhostMoveProbabilities st ghostIdx ghostPos pacmanPos
           = Inr ([UP \<mapsto> 1 / 4, DOWN \<mapsto> 1 / 4, LEFT \<mapsto> 1 / 4, RIGHT \<mapsto> 1 / 4], st))"
  by (auto simp: getGhostMoveProbabilities_def directions_def Let_def split: option.splits)

theorem getGhostMoveProbabilities_pure_witness:
  "ghostObservations initialGhostModel 0 = Some Map.empty
   \<and> getGhostMoveProbabilities initialGhostModel 0 (Pos 10 10) (Pos 20 10)
       = Inr ([UP \<mapsto> 1 / 4, DOWN \<mapsto> 1 / 4, LEFT \<mapsto> 1 / 4, RIGHT \<mapsto> 1 / 4], initialGhostModel)"
proof -
  have h: "ghostObservations initialGhostModel 0 = Some Map.empty"
    by (simp add: initialGhostModel_def)
  from getGhostMoveProbabilities_pure[of initialGhostModel 0 "Pos 10 10" "Pos 20 10"] h
  show ?thesis by simp
qed

lemma bucketsComplete_initial: "bucketsComplete initialGhostModel"
  by (simp add: bucketsComplete_def initialGhostModel_def)

lemma bucketsComplete_reset: "bucketsComplete (resetGhostModel st)"
  by (simp add: bucketsComplete_def resetGhostModel_def)

lemma bucketsComplete_record:
  assumes "bucketsComplete st" "recordGhostMove st i g p move = Inr st'"
  shows "bucketsComplete st'"
proof (cases "move = NONE")
  case True with assms show ?thesis by (simp add: recordGhostMove_def)
next
  case False
  from assms(2) False obtain tbl where tbl: "ghostObservations st i = Some tbl"
    by (auto simp: recordGhostMove_def Let_def split: option.splits)
  define b where "b = (case tbl (getSituation g p) of None \<Rightarrow> [UP \<mapsto> 0, DOWN \<mapsto> 0, LEFT \<mapsto> 0, RIGHT \<mapsto> (0::nat)] | Some b \<Rightarrow> b)"
  have domb: "dom b = {UP, DOWN, LEFT, RIGHT}"
    using assms(1) tbl unfolding bucketsComplete_def b_def by (auto split: option.splits)
  define b' where "b' = (case b move of None \<Rightarrow> b | Some c \<Rightarrow> b(move \<mapsto> c + 1))"
  have domb': "dom b' = {UP, DOWN, LEFT, RIGHT}"
    using domb unfolding b'_def by (auto split: option.splits)
  have st': "ghostObservations st' = (ghostObservations st)(i \<mapsto> tbl(getSituation g p \<mapsto> b'))"
    using assms(2) False tbl unfolding recordGhostMove_def b_def b'_def
    by (auto simp: Let_def)
  show ?thesis
    unfolding bucketsComplete_def
  proof (intro allI impI)
    fix j tbl' s b0
    assume a: "ghostObservations st' j = Some tbl'" and b0: "tbl' s = Some b0"
    show "dom b0 = {UP, DOWN, LEFT, RIGHT}"
    proof (cases "j = i")
      case True
      with a st' have t: "tbl' = tbl(getSituation g p \<mapsto> b')" by simp
      show ?thesis
      proof (cases "s = getSituation g p")
        case True
        with t b0 have "b0 = b'" by simp
        thus ?thesis using domb' by simp
      next
        case False
        with t b0 have "tbl s = Some b0" by simp
        with assms(1) tbl show ?thesis unfolding bucketsComplete_def by blast
      qed
    next
      case False
      with a st' have "ghostObservations st j = Some tbl'" by simp
      with assms(1) b0 show ?thesis unfolding bucketsComplete_def by blast
    qed
  qed
qed

text \<open>
  In every model that the code builds exactly the indices 0 to 3 have a table, and
  every bucket holds the four directions.
\<close>

lemma recordGhostMove_observations:
  assumes "recordGhostMove st i g p move = Inr st'" "move \<noteq> NONE"
  shows "\<exists>tbl t. ghostObservations st i = Some tbl \<and> ghostObservations st' = (ghostObservations st)(i \<mapsto> t)"
proof (cases "ghostObservations st i")
  case None
  with assms show ?thesis by (simp add: recordGhostMove_def Let_def)
next
  case (Some tbl)
  define b where "b = (case tbl (getSituation g p) of None \<Rightarrow> [UP \<mapsto> 0, DOWN \<mapsto> 0, LEFT \<mapsto> 0, RIGHT \<mapsto> (0::nat)] | Some b \<Rightarrow> b)"
  define b' where "b' = (case b move of None \<Rightarrow> b | Some c \<Rightarrow> b(move \<mapsto> c + 1))"
  have "ghostObservations st' = (ghostObservations st)(i \<mapsto> tbl(getSituation g p \<mapsto> b'))"
    using assms Some unfolding recordGhostMove_def b_def b'_def by (auto simp: Let_def)
  with Some show ?thesis by blast
qed

lemma recordGhostMove_tables:
  assumes "recordGhostMove st i g p move = Inr st'"
  shows "dom (ghostObservations st') = dom (ghostObservations st)"
proof (cases "move = NONE")
  case True
  with assms show ?thesis by (simp add: recordGhostMove_def)
next
  case False
  from recordGhostMove_observations[OF assms False] obtain tbl t where
    "ghostObservations st i = Some tbl" "ghostObservations st' = (ghostObservations st)(i \<mapsto> t)"
    by blast
  thus ?thesis by (simp add: insert_absorb domI)
qed

lemma initialGhostModel_tables: "dom (ghostObservations initialGhostModel) = {0, 1, 2, 3}"
  unfolding initialGhostModel_def by (simp add: insert_commute)

lemma resetGhostModel_tables: "dom (ghostObservations (resetGhostModel st)) = {0, 1, 2, 3}"
  unfolding resetGhostModel_def by (simp add: insert_commute)

lemma reachableModel_tables:
  "reachableModel st \<Longrightarrow> dom (ghostObservations st) = {0, 1, 2, 3}"
proof (induction rule: reachableModel.induct)
  case atStart
  show ?case by (rule initialGhostModel_tables)
next
  case (afterReset st)
  show ?case by (rule resetGhostModel_tables)
next
  case (afterRecord st ghostIdx ghostPos pacmanPos move st')
  from recordGhostMove_tables[OF afterRecord.hyps(2)] afterRecord.IH show ?case by simp
qed

lemma reachableModel_bucketsComplete:
  "reachableModel st \<Longrightarrow> bucketsComplete st"
proof (induction rule: reachableModel.induct)
  case atStart
  show ?case by (rule bucketsComplete_initial)
next
  case (afterReset st)
  show ?case by (rule bucketsComplete_reset)
next
  case (afterRecord st ghostIdx ghostPos pacmanPos move st')
  from bucketsComplete_record[OF afterRecord.IH afterRecord.hyps(2)] show ?case .
qed




section \<open>Minimax: the ghosts' turn\<close>

lemma mapE_nth:
  assumes "\<forall>i<length xs. \<exists>y. f (xs ! i) = Inr y"
  shows "\<exists>ys. mapE f xs = Inr ys \<and> length ys = length xs \<and> (\<forall>i<length xs. f (xs ! i) = Inr (ys ! i))"
  using assms
proof (induction xs)
  case Nil
  then show ?case by simp
next
  case (Cons x xs)
  from Cons.prems have "\<exists>y. f ((x # xs) ! 0) = Inr y" by blast
  then obtain y where y: "f x = Inr y" by auto
  have "\<forall>i<length xs. \<exists>y. f (xs ! i) = Inr y"
  proof (intro allI impI)
    fix i assume "i < length xs"
    hence "Suc i < length (x # xs)" by simp
    with Cons.prems have "\<exists>y. f ((x # xs) ! Suc i) = Inr y" by blast
    thus "\<exists>y. f (xs ! i) = Inr y" by simp
  qed
  from Cons.IH[OF this] obtain ys where ys: "mapE f xs = Inr ys" "length ys = length xs"
    "\<forall>i<length xs. f (xs ! i) = Inr (ys ! i)" by blast
  have "\<forall>i<length (x # xs). f ((x # xs) ! i) = Inr ((y # ys) ! i)"
  proof (intro allI impI)
    fix i assume "i < length (x # xs)"
    thus "f ((x # xs) ! i) = Inr ((y # ys) ! i)"
      using y ys(3) by (cases i) simp_all
  qed
  with y ys show ?case by simp
qed

lemma minimaxGhostStep_closed:
  assumes "stateAt ghostStates idx = Some gs"
  shows "minimaxGhostStep m pacmanPos ghostStates g idx =
     Inr (let dx = cx (toGrid pacmanPos) - cx (toGrid g);
              dy = cy (toGrid pacmanPos) - cy (toGrid g);
              way = (if isEdible gs then - 1 else 1);
              xStep = Pos (px g + 10 * way * of_int (sgn dx)) (py g);
              yStep = Pos (px g) (py g + 10 * way * of_int (sgn dy))
          in if \<bar>dx\<bar> > \<bar>dy\<bar> \<and> isFloorSpace m (toGrid xStep) then xStep
             else if isFloorSpace m (toGrid yStep) then yStep
             else g)"
proof -
  have sg: "(if d \<noteq> 0 then (if d > 0 then 10 * w else - 10 * w) else 0) = 10 * w * of_int (sgn d)"
    for d :: int and w :: real
    by (simp add: sgn_if)
  show ?thesis
    unfolding minimaxGhostStep_def Let_def assms option.case sg
    by (cases g) simp
qed

text \<open>
  C2, as stated: a ghost whose step along the axis of the larger distance is blocked
  stays in place. It does not: with Pac-Man three cells to the right and one cell
  below, and the cell to the right a wall, the ghost steps down.
\<close>

theorem minimaxGhostPly_alternate_axis:
  "toGrid (Pos 40 20) = Cell 4 2 \<and> toGrid (Pos 10 10) = Cell 1 1
   \<and> \<not> isFloorSpace ledgeMap (toGrid (Pos 20 10))
   \<and> minimaxGhostPly ledgeMap (Pos 40 20) [Pos 10 10] [\<lparr>isEdible = False, isDangerous = True\<rparr>]
       = Inr [Pos 10 20]"
  by (simp add: minimaxGhostPly_def minimaxGhostStep_def ledgeMap_def toGrid_def stateAt_def Math_round_def)

text \<open>
  C2, amended: in the ghosts' turn of \<open>minimax\<close>, with a state for every ghost, a ghost
  that is edible or dangerous moves by a fixed rule, towards Pac-Man if it is dangerous
  and away from him if it is edible (a ghost flagged both moves as an edible one). When
  the horizontal distance is strictly larger than the vertical one the ghost takes the
  horizontal step if that cell is floor; when that step is blocked it takes the
  vertical step if that cell is floor, and stays in place only when both are blocked.
  When the vertical distance is at least the horizontal one the ghost takes the
  vertical step if that cell is floor and stays in place otherwise: there is no
  fallback from the vertical to the horizontal step.
\<close>

theorem minimaxGhostPly_rule:
  assumes "length ghostPositions \<le> length ghostStates" and "i < length ghostPositions"
      and "isEdible (ghostStates ! i) \<or> isDangerous (ghostStates ! i)"
  shows "\<exists>new. minimaxGhostPly m pacmanPos ghostPositions ghostStates = Inr new
      \<and> length new = length ghostPositions
      \<and> new ! i =
         (let g = ghostPositions ! i;
              dx = cx (toGrid pacmanPos) - cx (toGrid g);
              dy = cy (toGrid pacmanPos) - cy (toGrid g);
              way = (if isEdible (ghostStates ! i) then - 1 else 1);
              xStep = Pos (px g + 10 * way * of_int (sgn dx)) (py g);
              yStep = Pos (px g) (py g + 10 * way * of_int (sgn dy))
          in if \<bar>dx\<bar> > \<bar>dy\<bar> \<and> isFloorSpace m (toGrid xStep) then xStep
             else if isFloorSpace m (toGrid yStep) then yStep
             else g)"
proof -
  let ?xs = "zip ghostPositions [0..<length ghostPositions]"
  let ?f = "\<lambda>(gPos, idx). minimaxGhostStep m pacmanPos ghostStates gPos idx"
  have st: "stateAt ghostStates j = Some (ghostStates ! j)" if "j < length ghostPositions" for j
    using that assms(1) by (simp add: stateAt_def)
  have el: "?xs ! j = (ghostPositions ! j, j)" if "j < length ghostPositions" for j
    using that by simp
  have "\<forall>j<length ?xs. \<exists>y. ?f (?xs ! j) = Inr y"
    by (simp add: minimaxGhostStep_closed[OF st])
  from mapE_nth[OF this] obtain new where new: "mapE ?f ?xs = Inr new" "length new = length ?xs"
    "\<forall>j<length ?xs. ?f (?xs ! j) = Inr (new ! j)" by blast
  from new(3) assms(2) have "?f (?xs ! i) = Inr (new ! i)" by simp
  hence "minimaxGhostStep m pacmanPos ghostStates (ghostPositions ! i) i = Inr (new ! i)"
    using el[OF assms(2)] by simp
  hence "new ! i = (let g = ghostPositions ! i;
              dx = cx (toGrid pacmanPos) - cx (toGrid g);
              dy = cy (toGrid pacmanPos) - cy (toGrid g);
              way = (if isEdible (ghostStates ! i) then - 1 else 1);
              xStep = Pos (px g + 10 * way * of_int (sgn dx)) (py g);
              yStep = Pos (px g) (py g + 10 * way * of_int (sgn dy))
          in if \<bar>dx\<bar> > \<bar>dy\<bar> \<and> isFloorSpace m (toGrid xStep) then xStep
             else if isFloorSpace m (toGrid yStep) then yStep
             else g)"
    unfolding minimaxGhostStep_closed[OF st[OF assms(2)]] Let_def by simp
  with new(1,2) show ?thesis unfolding minimaxGhostPly_def by simp
qed

theorem minimaxGhostPly_rule_witness:
  "(\<exists>new. minimaxGhostPly ledgeMap (Pos 40 20) [Pos 10 10] [\<lparr>isEdible = False, isDangerous = True\<rparr>] = Inr new
      \<and> length new = 1 \<and> new ! 0 = Pos 10 20)
   \<and> (\<exists>new. minimaxGhostPly pitMap (Pos 20 40) [Pos 10 10] [\<lparr>isEdible = False, isDangerous = True\<rparr>] = Inr new
      \<and> length new = 1 \<and> new ! 0 = Pos 10 10)
   \<and> (\<exists>new. minimaxGhostPly pitMap (Pos 40 20) [Pos 10 10] [\<lparr>isEdible = True, isDangerous = True\<rparr>] = Inr new
      \<and> length new = 1 \<and> new ! 0 = Pos 0 10)"
  using minimaxGhostPly_rule[of "[Pos 10 10]" "[\<lparr>isEdible = False, isDangerous = True\<rparr>]" 0 ledgeMap "Pos 40 20"]
        minimaxGhostPly_rule[of "[Pos 10 10]" "[\<lparr>isEdible = False, isDangerous = True\<rparr>]" 0 pitMap "Pos 20 40"]
        minimaxGhostPly_rule[of "[Pos 10 10]" "[\<lparr>isEdible = True, isDangerous = True\<rparr>]" 0 pitMap "Pos 40 20"]
  by (simp add: ledgeMap_def pitMap_def toGrid_def Math_round_def)

section \<open>Values in the corridor world\<close>

lemma Math_round_tens [simp]:
  "Math_round 0 = 0" "Math_round 1 = 1" "Math_round 2 = 2" "Math_round 3 = 3" "Math_round (- 1) = - 1"
  by (simp_all add: Math_round_def) 

lemma getSituation_corridor: "getSituation (Pos 30 0) (Pos 10 0) = ''HV_near''"
  by (simp add: getSituation_def)

lemma learnedModel_probabilities: "getGhostMoveProbabilities learnedModel 0 (Pos 30 0) (Pos 10 0)
   = Inr ([UP \<mapsto> 201 / 204, DOWN \<mapsto> 1 / 204, LEFT \<mapsto> 1 / 204, RIGHT \<mapsto> 1 / 204], learnedModel)"
  by (simp add: getGhostMoveProbabilities_def getSituation_corridor learnedModel_def directions_def orZero_def SMOOTHING_def)

lemma evaluateState_corridor_1_3: "evaluateState corridorMap (Pos 10 0) [Pos 30 0] [chaser] = Inr (- 250)"
  by (simp add: evaluateState_def corridorMap_def chaser_def toGrid_def manhattanDistance_def tileAt_def
        nearestGhostDistance_def js_gt_def)

lemma expectimaxBranch_corridor_UP: "expectimaxBranch learnedModel corridorMap (Pos 10 0) [Pos 30 0] [chaser] 0 UP n = Inr (Num (- 250), n + 1)"
proof -
  have "expectimaxGhostPly learnedModel corridorMap (Pos 10 0) [Pos 30 0] UP = Inr [Pos 30 0]"
    by (simp add: expectimaxGhostPly_def expectimaxGhostStep_def pixelDeltas_def corridorMap_def toGrid_def)
  thus ?thesis by (simp add: expectimaxBranch_def evaluateState_corridor_1_3)
qed

lemma getValidMoves_corridor_1: "getValidMoves corridorMap (Pos 10 0) = [LEFT, RIGHT]"
  by (simp add: getValidMoves_def corridorMap_def directions_def gridDeltas_def)

section \<open>Minimax: pruning cuts nothing\<close>

lemma Math_max_ne_Infinity: "a \<noteq> Infinity \<Longrightarrow> b \<noteq> Infinity \<Longrightarrow> Math_max a b \<noteq> Infinity"
  by (cases a; cases b) simp_all

lemma Math_min_Infinity_ne: "e \<noteq> Infinity \<Longrightarrow> Math_min Infinity e \<noteq> Infinity"
  by (cases e) simp_all

lemma js_le_Infinity_iff: "js_le Infinity a \<longleftrightarrow> a = Infinity"
  by (cases a) simp_all

lemma maxLoop_ne_Infinity:
  assumes "\<And>newPos n v n'. child newPos n = Inr (v, n') \<Longrightarrow> v \<noteq> Infinity"
      and "maxEval \<noteq> Infinity"
      and "maxLoop child pacmanPos moves maxEval nodes = Inr (v, n')"
  shows "v \<noteq> Infinity"
  using assms(2,3)
proof (induction moves arbitrary: maxEval nodes)
  case Nil
  then show ?case by simp
next
  case (Cons move rest)
  from Cons.prems(2) obtain dx dy e k where
    d: "pixelDeltas move = Some (dx, dy)" and
    c: "child (Pos (px pacmanPos + dx) (py pacmanPos + dy)) nodes = Inr (e, k)" and
    r: "maxLoop child pacmanPos rest (Math_max maxEval e) k = Inr (v, n')"
    by (auto split: option.splits sum.splits)
  from assms(1)[OF c] Cons.prems(1) have "Math_max maxEval e \<noteq> Infinity"
    by (rule Math_max_ne_Infinity[rotated])
  from Cons.IH[OF this r] show ?case .
qed

lemma minimaxNoPruning_ne_Infinity:
  "minimaxNoPruning m pacmanPos ghostPositions ghostStates d isMaximizing nodes = Inr (v, n') \<Longrightarrow> v \<noteq> Infinity"
proof (induction d arbitrary: pacmanPos ghostPositions isMaximizing nodes v n')
  case 0
  then show ?case by (auto split: sum.splits)
next
  case (Suc d)
  show ?case
  proof (cases "getValidMoves m pacmanPos = []")
    case True
    with Suc.prems show ?thesis by (auto split: sum.splits)
  next
    case False
    show ?thesis
    proof (cases isMaximizing)
      case True
      with False Suc.prems have
        "maxLoop (\<lambda>newPos n. minimaxNoPruning m newPos ghostPositions ghostStates d False n)
           pacmanPos (getValidMoves m pacmanPos) NegInfinity (nodes + 1) = Inr (v, n')"
        by simp
      thus ?thesis
        by (rule maxLoop_ne_Infinity[rotated 2]) (auto dest: Suc.IH)
    next
      case F: False
      with False Suc.prems obtain new e where
        "minimaxNoPruning m pacmanPos new ghostStates d True (nodes + 1) = Inr (e, n')"
        "v = Math_min Infinity e"
        by (auto split: sum.splits)
      from Suc.IH[OF this(1)] have "e \<noteq> Infinity" .
      thus ?thesis unfolding \<open>v = Math_min Infinity e\<close> by (rule Math_min_Infinity_ne)
    qed
  qed
qed

lemma minimaxMaxLoop_no_pruning:
  assumes eq: "\<And>newPos a n. a \<noteq> Infinity \<Longrightarrow> child newPos a n = child' newPos n"
      and fin: "\<And>newPos n v n'. child' newPos n = Inr (v, n') \<Longrightarrow> v \<noteq> Infinity"
      and "alpha \<noteq> Infinity"
  shows "minimaxMaxLoop child pacmanPos moves maxEval alpha Infinity nodes
         = maxLoop child' pacmanPos moves maxEval nodes"
  using assms(3)
proof (induction moves arbitrary: maxEval alpha nodes)
  case Nil
  then show ?case by simp
next
  case (Cons move rest)
  show ?case
  proof (cases "pixelDeltas move")
    case None
    then show ?thesis by simp
  next
    case (Some d)
    obtain dx dy where d: "d = (dx, dy)" by (cases d)
    let ?p = "Pos (px pacmanPos + dx) (py pacmanPos + dy)"
    have c: "child ?p alpha nodes = child' ?p nodes" using eq[OF Cons.prems] .
    show ?thesis
    proof (cases "child' ?p nodes")
      case (Inl e)
      with Some d c show ?thesis by simp
    next
      case (Inr r)
      obtain e k where r: "r = (e, k)" by (cases r)
      from fin Inr r have e: "e \<noteq> Infinity" by blast
      hence a': "Math_max alpha e \<noteq> Infinity" using Cons.prems by (simp add: Math_max_ne_Infinity)
      hence "\<not> js_le Infinity (Math_max alpha e)" by (simp add: js_le_Infinity_iff)
      with Some d c Inr r Cons.IH[OF a'] show ?thesis by simp
    qed
  qed
qed

lemma minimax_no_pruning:
  "alpha \<noteq> Infinity \<Longrightarrow>
   minimax m pacmanPos ghostPositions ghostStates d isMaximizing alpha Infinity nodes
   = minimaxNoPruning m pacmanPos ghostPositions ghostStates d isMaximizing nodes"
proof (induction d arbitrary: pacmanPos ghostPositions isMaximizing alpha nodes)
  case 0
  then show ?case by simp
next
  case (Suc d)
  have loop: "minimaxMaxLoop (\<lambda>newPos a n. minimax m newPos ghostPositions ghostStates d False a Infinity n)
                pacmanPos moves NegInfinity alpha Infinity k
            = maxLoop (\<lambda>newPos n. minimaxNoPruning m newPos ghostPositions ghostStates d False n)
                pacmanPos moves NegInfinity k" for moves k
    by (rule minimaxMaxLoop_no_pruning) (auto simp: Suc.IH Suc.prems dest: minimaxNoPruning_ne_Infinity)
  show ?case
    by (simp add: Let_def loop Suc.IH[OF Suc.prems] cong: sum.case_cong)
qed

text \<open>
  C4. For every map, position of Pac-Man, ghost positions, ghost states and depth, the
  controller that searches with alpha-beta pruning and the one that searches without
  pruning make the same decision: the same move with the same root value; here even
  the node counts agree, since with \<open>beta\<close> at \<open>Infinity\<close> throughout no branch is cut.
\<close>

theorem minimax_pruning_preserves_decision:
  "PacmanControllers_minimax tr m pacmanPos ghostPositions ghostStates depth lastMove
   = PacmanControllers_minimaxNoPruning tr m pacmanPos ghostPositions ghostStates depth lastMove"
proof -
  have "minimax m newPos ghostPositions ghostStates d False NegInfinity Infinity
        = minimaxNoPruning m newPos ghostPositions ghostStates d False" for newPos d
    by (rule ext) (simp add: minimax_no_pruning)
  thus ?thesis
    unfolding PacmanControllers_minimax_def PacmanControllers_minimaxNoPruning_def by simp
qed

lemma evaluateState_corridor_0_2: "evaluateState corridorMap (Pos 0 0) [Pos 20 0] [chaser] = Inr (- 250)"
  by (simp add: evaluateState_def corridorMap_def chaser_def toGrid_def manhattanDistance_def tileAt_def
        nearestGhostDistance_def js_gt_def)

lemma evaluateState_corridor_2_2: "evaluateState corridorMap (Pos 20 0) [Pos 20 0] [chaser] = Inr (- 1950)"
  by (simp add: evaluateState_def corridorMap_def chaser_def toGrid_def manhattanDistance_def tileAt_def
        nearestGhostDistance_def js_gt_def)

lemma getValidMoves_corridor_0: "getValidMoves corridorMap (Pos 0 0) = [RIGHT]"
  by (simp add: getValidMoves_def corridorMap_def directions_def gridDeltas_def)

lemma getValidMoves_corridor_2: "getValidMoves corridorMap (Pos 20 0) = [LEFT, RIGHT]"
  by (simp add: getValidMoves_def corridorMap_def directions_def gridDeltas_def)

lemma minimaxGhostPly_corridor_0: "minimaxGhostPly corridorMap (Pos 0 0) [Pos 30 0] [chaser] = Inr [Pos 20 0]"
  by (simp add: minimaxGhostPly_def minimaxGhostStep_def stateAt_def chaser_def corridorMap_def toGrid_def)

lemma minimaxGhostPly_corridor_2: "minimaxGhostPly corridorMap (Pos 20 0) [Pos 30 0] [chaser] = Inr [Pos 20 0]"
  by (simp add: minimaxGhostPly_def minimaxGhostStep_def stateAt_def chaser_def corridorMap_def toGrid_def)

lemma minimax_corridor_left: "minimax corridorMap (Pos 0 0) [Pos 30 0] [chaser] (Suc 0) False a b n = Inr (Num (- 250), n + 2)"
  by (simp add: getValidMoves_corridor_0 minimaxGhostPly_corridor_0 evaluateState_corridor_0_2)

lemma minimax_corridor_right: "minimax corridorMap (Pos 20 0) [Pos 30 0] [chaser] (Suc 0) False a b n = Inr (Num (- 1950), n + 2)"
  by (simp add: getValidMoves_corridor_2 minimaxGhostPly_corridor_2 evaluateState_corridor_2_2)

lemma getOscillationPenalty_fresh: "getOscillationPenalty freshTracker (Pos 10 0) mv None = (if mv = NONE then Inl TypeError else Inr 0)"
  by (cases mv) (simp_all add: getOscillationPenalty_def freshTracker_def gridDeltas_def orZero_def)

lemma rootLoop_corridor: "rootLoop (\<lambda>newPos n. minimax corridorMap newPos [Pos 30 0] [chaser] (Suc 0) False NegInfinity Infinity n)
    freshTracker (Pos 10 0) None [LEFT, RIGHT] LEFT NegInfinity 0 = Inr (LEFT, Num (- 250), 4)"
  by (simp add: pixelDeltas_def minimax_corridor_left minimax_corridor_right getOscillationPenalty_fresh js_sub_def js_gt_def del: minimax.simps)

lemma recordPosition_fresh: "recordPosition freshTracker (Pos 10 0) = \<lparr>moveHistory = [Cell 1 0], positionVisitCount = [Cell 1 0 \<mapsto> 1]\<rparr>"
  by (simp add: recordPosition_def freshTracker_def HISTORY_LENGTH_def orZero_def Let_def)

lemma PacmanControllers_minimax_corridor:
  "PacmanControllers_minimax freshTracker corridorMap (Pos 10 0) [Pos 30 0] [chaser] 2 None
   = Inr \<lparr>bestMove = LEFT, bestScore = Num (- 250), nodeCount = 4,
          trackerAfter = \<lparr>moveHistory = [Cell 1 0], positionVisitCount = [Cell 1 0 \<mapsto> 1]\<rparr>\<rparr>"
proof -
  have d: "(if (2::nat) = 0 then 4 else 2) - 1 = Suc 0" by simp
  show ?thesis
    unfolding PacmanControllers_minimax_def rootDecision_def Let_def d getValidMoves_corridor_1
    by (simp only: list.sel rootLoop_corridor) (simp add: recordPosition_fresh)
qed

theorem minimax_pruning_preserves_decision_witness:
  "PacmanControllers_minimaxNoPruning freshTracker corridorMap (Pos 10 0) [Pos 30 0] [chaser] 2 None
   = Inr \<lparr>bestMove = LEFT, bestScore = Num (- 250), nodeCount = 4,
          trackerAfter = \<lparr>moveHistory = [Cell 1 0], positionVisitCount = [Cell 1 0 \<mapsto> 1]\<rparr>\<rparr>"
  using minimax_pruning_preserves_decision[of freshTracker corridorMap "Pos 10 0" "[Pos 30 0]" "[chaser]" 2 None]
  by (simp add: PacmanControllers_minimax_corridor)

section \<open>Expectimax: the ghosts' turn\<close>

lemma returnsValueI: "(\<And>n. \<exists>k. f n = Inr (Num v, k)) \<Longrightarrow> returnsValue f v"
  by (simp add: returnsValue_def)

lemma returnsValueD: "returnsValue f v \<Longrightarrow> \<exists>k. f n = Inr (Num v, k)"
  by (simp add: returnsValue_def)

lemma returnsValue_unique: "returnsValue f v \<Longrightarrow> returnsValue f w \<Longrightarrow> v = w"
  unfolding returnsValue_def by (metis Pair_inject jsnum.inject old.sum.inject(2))

lemma partitionGhosts_ok:
  "length gps \<le> length gss \<Longrightarrow> \<exists>d e. partitionGhosts gps gss = Inr (d, e)"
  by (induction gps gss rule: partitionGhosts.induct) auto

lemma evaluateState_ok:
  assumes "length gps \<le> length gss"
  shows "\<exists>v. evaluateState m p gps gss = Inr v"
proof -
  from partitionGhosts_ok[OF assms] obtain d e where "partitionGhosts gps gss = Inr (d, e)" by blast
  thus ?thesis by (simp add: evaluateState_def Let_def)
qed

lemma pixelDeltas_directions: "dir \<in> set directions \<Longrightarrow> \<exists>dx dy. pixelDeltas dir = Some (dx, dy)"
  by (auto simp: directions_def pixelDeltas_def)

lemma getValidMoves_directions: "set (getValidMoves m p) \<subseteq> set directions"
  by (auto simp: getValidMoves_def Let_def)

lemma bestDir_direction:
  "fst (fold (\<lambda>d (bestDir, bestProb).
                if js_gt (probOf otherProbs d) bestProb
                then (d, probOf otherProbs d) else (bestDir, bestProb))
          directions (UP, Num 0)) \<in> set directions"
  by (simp add: directions_def)

lemma probs_total:
  assumes "ghostObservations st i = Some tbl"
  shows "\<exists>probs. getGhostMoveProbabilities st i g p = Inr (probs, st)
           \<and> (\<forall>dir\<in>set directions. \<exists>q. probs dir = Some q)"
proof -
  have d: "\<forall>dir\<in>set directions. \<exists>q. [UP \<mapsto> a, DOWN \<mapsto> b, LEFT \<mapsto> c, RIGHT \<mapsto> e] dir = Some q"
    for a b c e :: real
    unfolding directions_def by (simp del: fun_upd_apply) (simp add: fun_upd_def)
  show ?thesis
  proof (cases "tbl (getSituation g p)")
    case None
    show ?thesis unfolding probs_unseen[OF assms None] using d by blast
  next
    case (Some obs)
    show ?thesis unfolding probs_seen[OF assms Some] using d by blast
  qed
qed

lemma expectimaxGhostStep_ok:
  assumes "idx = 0 \<or> ghostObservations st idx \<noteq> None" "dir \<in> set directions"
  shows "\<exists>p. expectimaxGhostStep st m pacmanPos dir g idx = Inr p"
proof (cases "idx > 0")
  case False
  with pixelDeltas_directions[OF assms(2)] show ?thesis
    by (auto simp: expectimaxGhostStep_def Let_def)
next
  case True
  with assms(1) obtain tbl where "ghostObservations st idx = Some tbl" by auto
  from probs_total[OF this] obtain probs where p: "getGhostMoveProbabilities st idx g pacmanPos = Inr (probs, st)"
    by blast
  from pixelDeltas_directions[OF bestDir_direction[of probs]] obtain dx dy where
    "pixelDeltas (fst (fold (\<lambda>d (bestDir, bestProb).
                if js_gt (probOf probs d) bestProb
                then (d, probOf probs d) else (bestDir, bestProb))
          directions (UP, Num 0))) = Some (dx, dy)" by blast
  with True p show ?thesis
    by (simp add: expectimaxGhostStep_def Let_def)
qed

lemma expectimaxGhostPly_ok:
  assumes "\<forall>i<length gps. ghostObservations st i \<noteq> None" "dir \<in> set directions"
  shows "\<exists>new. expectimaxGhostPly st m pacmanPos gps dir = Inr new \<and> length new = length gps"
proof -
  let ?xs = "zip gps [0..<length gps]"
  let ?f = "\<lambda>(gPos, idx). expectimaxGhostStep st m pacmanPos dir gPos idx"
  have "\<forall>j<length ?xs. \<exists>y. ?f (?xs ! j) = Inr y"
    using assms by (simp add: expectimaxGhostStep_ok)
  from mapE_nth[OF this] show ?thesis unfolding expectimaxGhostPly_def by auto
qed

lemma maxLoop_returns_Num:
  assumes "\<forall>move\<in>set moves. \<exists>dx dy. pixelDeltas move = Some (dx, dy)"
      and "\<forall>newPos. \<exists>v. returnsValue (child newPos) v"
  shows "\<exists>v. returnsValue (maxLoop child pacmanPos moves (Num a)) v"
  using assms(1)
proof (induction moves arbitrary: a)
  case Nil
  show ?case by (rule exI[of _ a]) (simp add: returnsValue_def)
next
  case (Cons move rest)
  from Cons.prems obtain dx dy where d: "pixelDeltas move = Some (dx, dy)" by auto
  let ?p = "Pos (px pacmanPos + dx) (py pacmanPos + dy)"
  from assms(2) obtain v where v: "returnsValue (child ?p) v" by blast
  from Cons.prems have "\<forall>move\<in>set rest. \<exists>dx dy. pixelDeltas move = Some (dx, dy)" by simp
  from Cons.IH[OF this, of "max a v"] obtain w where
    w: "returnsValue (maxLoop child pacmanPos rest (Num (max a v))) w" by blast
  have mx: "Math_max (Num a) (Num v) = Num (max a v)" by (simp add: max_def)
  show ?case
  proof (rule exI[of _ w], rule returnsValueI)
    fix n
    from returnsValueD[OF v, of n] obtain k where k: "child ?p n = Inr (Num v, k)" by blast
    from returnsValueD[OF w, of k] obtain k' where
      "maxLoop child pacmanPos rest (Num (max a v)) k = Inr (Num w, k')" by blast
    with d k mx show "\<exists>k. maxLoop child pacmanPos (move # rest) (Num a) n = Inr (Num w, k)"
      by simp
  qed
qed

lemma maxLoop_returns:
  assumes "\<forall>move\<in>set moves. \<exists>dx dy. pixelDeltas move = Some (dx, dy)"
      and "\<forall>newPos. \<exists>v. returnsValue (child newPos) v"
      and "moves \<noteq> []"
  shows "\<exists>v. returnsValue (maxLoop child pacmanPos moves NegInfinity) v"
proof -
  from assms(3) obtain move rest where mr: "moves = move # rest" by (cases moves) auto
  with assms(1) obtain dx dy where d: "pixelDeltas move = Some (dx, dy)" by auto
  let ?p = "Pos (px pacmanPos + dx) (py pacmanPos + dy)"
  from assms(2) obtain v where v: "returnsValue (child ?p) v" by blast
  from assms(1) mr have "\<forall>move\<in>set rest. \<exists>dx dy. pixelDeltas move = Some (dx, dy)" by simp
  from maxLoop_returns_Num[OF this assms(2)] obtain w where
    w: "returnsValue (maxLoop child pacmanPos rest (Num v)) w" by blast
  show ?thesis
  proof (rule exI[of _ w], rule returnsValueI)
    fix n
    from returnsValueD[OF v, of n] obtain k where k: "child ?p n = Inr (Num v, k)" by blast
    from returnsValueD[OF w, of k] obtain k' where
      "maxLoop child pacmanPos rest (Num v) k = Inr (Num w, k')" by blast
    with d k mr show "\<exists>k. maxLoop child pacmanPos moves NegInfinity n = Inr (Num w, k)"
      by simp
  qed
qed

lemma expectimaxChanceLoop_returns:
  assumes "\<forall>dir\<in>set dirs. probs dir = Some (p dir) \<and> returnsValue (child dir) (vals dir)"
  shows "returnsValue (expectimaxChanceLoop child probs dirs (Num acc))
           (acc + (\<Sum>dir\<leftarrow>filter (\<lambda>dir. 1 / 100 \<le> p dir) dirs. p dir * vals dir))"
  using assms
proof (induction dirs arbitrary: acc)
  case Nil
  show ?case by (simp add: returnsValue_def)
next
  case (Cons dir rest)
  from Cons.prems have pd: "probs dir = Some (p dir)" and vd: "returnsValue (child dir) (vals dir)"
    and rest: "\<forall>dir\<in>set rest. probs dir = Some (p dir) \<and> returnsValue (child dir) (vals dir)"
    by simp_all
  show ?case
  proof (cases "p dir < 1 / 100")
    case True
    with pd Cons.IH[OF rest, of acc] show ?thesis
      by (simp add: returnsValue_def probOf_def)
  next
    case False
    show ?thesis
    proof (rule returnsValueI)
      fix n
      from returnsValueD[OF vd, of n] obtain k where k: "child dir n = Inr (Num (vals dir), k)" by blast
      from returnsValueD[OF Cons.IH[OF rest, of "acc + p dir * vals dir"], of k] obtain k' where
        "expectimaxChanceLoop child probs rest (Num (acc + p dir * vals dir)) k
          = Inr (Num (acc + p dir * vals dir + (\<Sum>dir\<leftarrow>filter (\<lambda>dir. 1 / 100 \<le> p dir) rest. p dir * vals dir)), k')"
        by blast
      with False pd k show "\<exists>k. expectimaxChanceLoop child probs (dir # rest) (Num acc) n =
              Inr (Num (acc + (\<Sum>dir\<leftarrow>filter (\<lambda>dir. 1 / 100 \<le> p dir) (dir # rest). p dir * vals dir)), k)"
        by (simp add: probOf_def add.assoc)
    qed
  qed
qed

lemma expectimax_returns:
  assumes "ghostPositions \<noteq> []" "length ghostPositions \<le> length ghostStates"
      and "\<forall>i<length ghostPositions. ghostObservations st i \<noteq> None"
  shows "\<exists>v. returnsValue (expectimax st m pacmanPos ghostPositions ghostStates d isMaximizing) v"
  using assms
proof (induction d arbitrary: pacmanPos ghostPositions isMaximizing)
  case 0
  from evaluateState_ok[OF 0(2)] obtain v where "evaluateState m pacmanPos ghostPositions ghostStates = Inr v"
    by blast
  thus ?case by (intro exI[of _ v]) (simp add: returnsValue_def)
next
  case (Suc d)
  show ?case
  proof (cases "getValidMoves m pacmanPos = []")
    case True
    from evaluateState_ok[OF Suc.prems(2)] obtain v where "evaluateState m pacmanPos ghostPositions ghostStates = Inr v"
      by blast
    with True show ?thesis by (intro exI[of _ v]) (simp add: returnsValue_def)
  next
    case False
    show ?thesis
    proof (cases isMaximizing)
      case True
      have mv: "\<forall>move\<in>set (getValidMoves m pacmanPos). \<exists>dx dy. pixelDeltas move = Some (dx, dy)"
        using getValidMoves_directions pixelDeltas_directions by blast
      have "\<forall>newPos. \<exists>v. returnsValue (\<lambda>n. expectimax st m newPos ghostPositions ghostStates d False n) v"
        using Suc.IH[OF Suc.prems] by simp
      from maxLoop_returns[OF mv this False]
      obtain v where v: "returnsValue (maxLoop (\<lambda>newPos n. expectimax st m newPos ghostPositions ghostStates d False n)
              pacmanPos (getValidMoves m pacmanPos) NegInfinity) v" by blast
      show ?thesis
      proof (rule exI[of _ v], rule returnsValueI)
        fix n
        from returnsValueD[OF v, of "n + 1"] False True
        show "\<exists>k. expectimax st m pacmanPos ghostPositions ghostStates (Suc d) isMaximizing n = Inr (Num v, k)"
          by simp
      qed
    next
      case F: False
      from Suc.prems(1) obtain g0 gs where g: "ghostPositions = g0 # gs" by (cases ghostPositions) auto
      from Suc.prems(3) g obtain tbl where "ghostObservations st 0 = Some tbl" by auto
      from probs_total[OF this] obtain probs where p: "getGhostMoveProbabilities st 0 g0 pacmanPos = Inr (probs, st)"
          and pd: "\<forall>dir\<in>set directions. \<exists>q. probs dir = Some q"
        by blast
      let ?child = "\<lambda>dir n. case expectimaxGhostPly st m pacmanPos ghostPositions dir of
                                      Inl e \<Rightarrow> Inl e
                                    | Inr newGhostPositions \<Rightarrow>
                                        expectimax st m pacmanPos newGhostPositions ghostStates d True n"
      have ch: "\<exists>v. returnsValue (?child dir) v" if "dir \<in> set directions" for dir
      proof -
        from expectimaxGhostPly_ok[OF Suc.prems(3) that] obtain new where
          new: "expectimaxGhostPly st m pacmanPos ghostPositions dir = Inr new" "length new = length ghostPositions"
          by blast
        from new(2) Suc.prems have "new \<noteq> []" "length new \<le> length ghostStates"
          "\<forall>i<length new. ghostObservations st i \<noteq> None" by auto
        from Suc.IH[OF this] new(1) show ?thesis by simp
      qed
      define p' where "p' = (\<lambda>dir. the (probs dir))"
      define vals where "vals = (\<lambda>dir. SOME v. returnsValue (?child dir) v)"
      have "\<forall>dir\<in>set directions. probs dir = Some (p' dir) \<and> returnsValue (?child dir) (vals dir)"
        using pd ch unfolding p'_def vals_def by (auto intro: someI_ex)
      from expectimaxChanceLoop_returns[OF this, of 0]
      have r: "returnsValue (expectimaxChanceLoop ?child probs directions (Num 0))
           (0 + (\<Sum>dir\<leftarrow>filter (\<lambda>dir. 1 / 100 \<le> p' dir) directions. p' dir * vals dir))" .
      show ?thesis
      proof (rule exI, rule returnsValueI)
        fix n
        from returnsValueD[OF r, of "n + 1"] False F g p
        show "\<exists>k. expectimax st m pacmanPos ghostPositions ghostStates (Suc d) isMaximizing n
                = Inr (Num (0 + (\<Sum>dir\<leftarrow>filter (\<lambda>dir. 1 / 100 \<le> p' dir) directions. p' dir * vals dir)), k)"
          by simp
      qed
    qed
  qed
qed

text \<open>
  C7. In the ghosts' turn of \<open>expectimax\<close> (a depth above zero, Pac-Man has a valid
  move), with at least one ghost, a state for every ghost and a table for every ghost
  index, the value returned is the sum, over exactly the directions of ghost 0 whose
  learned probability is at least 0.01, of the probability times the value of the
  recursive call for that direction. The probabilities that remain are not
  renormalised.
\<close>

theorem expectimax_ghost_turn_expectation:
  assumes "ghostPositions \<noteq> []" "length ghostPositions \<le> length ghostStates"
      and "\<forall>i<length ghostPositions. ghostObservations st i \<noteq> None"
      and "getValidMoves m pacmanPos \<noteq> []"
  shows "\<exists>probs vals.
           getGhostMoveProbabilities st 0 (hd ghostPositions) pacmanPos = Inr (probs, st)
         \<and> (\<forall>dir\<in>set directions.
               returnsValue (expectimaxBranch st m pacmanPos ghostPositions ghostStates d dir) (vals dir))
         \<and> returnsValue (expectimax st m pacmanPos ghostPositions ghostStates (Suc d) False)
               (\<Sum>dir\<leftarrow>filter (\<lambda>dir. 1 / 100 \<le> the (probs dir)) directions. the (probs dir) * vals dir)"
proof -
  from assms(1) obtain g0 gs where g: "ghostPositions = g0 # gs" by (cases ghostPositions) auto
  from assms(3) g obtain tbl where "ghostObservations st 0 = Some tbl" by auto
  from probs_total[OF this] obtain probs where p: "getGhostMoveProbabilities st 0 g0 pacmanPos = Inr (probs, st)"
      and pd: "\<forall>dir\<in>set directions. \<exists>q. probs dir = Some q"
    by blast
  have ch: "\<exists>v. returnsValue (expectimaxBranch st m pacmanPos ghostPositions ghostStates d dir) v"
    if "dir \<in> set directions" for dir
  proof -
    from expectimaxGhostPly_ok[OF assms(3) that] obtain new where
      new: "expectimaxGhostPly st m pacmanPos ghostPositions dir = Inr new" "length new = length ghostPositions"
      by blast
    from new(2) assms have "new \<noteq> []" "length new \<le> length ghostStates"
      "\<forall>i<length new. ghostObservations st i \<noteq> None" by auto
    from expectimax_returns[OF this] obtain v where
      "returnsValue (expectimax st m pacmanPos new ghostStates d True) v" by blast
    hence "returnsValue (expectimaxBranch st m pacmanPos ghostPositions ghostStates d dir) v"
      using new(1) by (simp add: returnsValue_def expectimaxBranch_def)
    thus ?thesis ..
  qed
  define p' where "p' = (\<lambda>dir. the (probs dir))"
  define vals where "vals = (\<lambda>dir. SOME v. returnsValue (expectimaxBranch st m pacmanPos ghostPositions ghostStates d dir) v)"
  have all: "\<forall>dir\<in>set directions. probs dir = Some (p' dir) \<and>
      returnsValue (expectimaxBranch st m pacmanPos ghostPositions ghostStates d dir) (vals dir)"
    using pd ch unfolding p'_def vals_def by (auto intro: someI_ex)
  from expectimaxChanceLoop_returns[OF this, of 0]
  have r: "returnsValue (expectimaxChanceLoop (expectimaxBranch st m pacmanPos ghostPositions ghostStates d) probs directions (Num 0))
       (\<Sum>dir\<leftarrow>filter (\<lambda>dir. 1 / 100 \<le> p' dir) directions. p' dir * vals dir)" by simp
  have "returnsValue (expectimax st m pacmanPos ghostPositions ghostStates (Suc d) False)
       (\<Sum>dir\<leftarrow>filter (\<lambda>dir. 1 / 100 \<le> p' dir) directions. p' dir * vals dir)"
  proof (rule returnsValueI)
    fix n
    have eq: "(\<lambda>dir n. case expectimaxGhostPly st m pacmanPos ghostPositions dir of
                                      Inl e \<Rightarrow> Inl e
                                    | Inr newGhostPositions \<Rightarrow>
                                        expectimax st m pacmanPos newGhostPositions ghostStates d True n)
       = expectimaxBranch st m pacmanPos ghostPositions ghostStates d"
      by (intro ext) (simp add: expectimaxBranch_def)
    have "expectimaxBranch st m pacmanPos ghostPositions ghostStates d
        = (\<lambda>dir n. case expectimaxGhostPly st m pacmanPos ghostPositions dir of
                                      Inl e \<Rightarrow> Inl e
                                    | Inr newGhostPositions \<Rightarrow>
                                        expectimax st m pacmanPos newGhostPositions ghostStates d True n)"
      by (intro ext) (simp add: expectimaxBranch_def)
    from returnsValueD[OF r[unfolded this], of "n + 1"] assms(4) g p
    show "\<exists>k. expectimax st m pacmanPos ghostPositions ghostStates (Suc d) False n
                = Inr (Num (\<Sum>dir\<leftarrow>filter (\<lambda>dir. 1 / 100 \<le> p' dir) directions. p' dir * vals dir), k)"
      by simp
  qed
  with p g all show ?thesis unfolding p'_def by auto
qed

theorem expectimax_ghost_turn_expectation_witness:
  "returnsValue (expectimax learnedModel corridorMap (Pos 10 0) [Pos 30 0] [chaser] (Suc 0) False)
     (201 / 204 * (- 250))"
proof -
  have h3: "\<forall>i<length [Pos 30 0]. ghostObservations learnedModel i \<noteq> None"
    by (simp add: learnedModel_def)
  have h4: "getValidMoves corridorMap (Pos 10 0) \<noteq> []" by (simp add: getValidMoves_corridor_1)
  from expectimax_ghost_turn_expectation[of "[Pos 30 0]" "[chaser]" learnedModel corridorMap "Pos 10 0" 0, OF _ _ h3 h4]
  obtain probs vals where
    p: "getGhostMoveProbabilities learnedModel 0 (hd [Pos 30 0]) (Pos 10 0) = Inr (probs, learnedModel)" and
    v: "\<forall>dir\<in>set directions. returnsValue (expectimaxBranch learnedModel corridorMap (Pos 10 0) [Pos 30 0] [chaser] 0 dir) (vals dir)" and
    r: "returnsValue (expectimax learnedModel corridorMap (Pos 10 0) [Pos 30 0] [chaser] (Suc 0) False)
               (\<Sum>dir\<leftarrow>filter (\<lambda>dir. 1 / 100 \<le> the (probs dir)) directions. the (probs dir) * vals dir)"
    by auto
  from p have probs: "probs = [UP \<mapsto> 201 / 204, DOWN \<mapsto> 1 / 204, LEFT \<mapsto> 1 / 204, RIGHT \<mapsto> 1 / 204]"
    by (simp add: learnedModel_probabilities)
  have "returnsValue (expectimaxBranch learnedModel corridorMap (Pos 10 0) [Pos 30 0] [chaser] 0 UP) (- 250)"
    by (simp add: returnsValue_def expectimaxBranch_corridor_UP)
  moreover from v have "returnsValue (expectimaxBranch learnedModel corridorMap (Pos 10 0) [Pos 30 0] [chaser] 0 UP) (vals UP)"
    by (simp add: directions_def)
  ultimately have "vals UP = - 250" by (rule returnsValue_unique[symmetric])
  with r show ?thesis by (simp add: probs directions_def)
qed

end
